theory Spec2Isabelle
  imports Complex_Main "HOL-Library.Sublist"
begin

section \<open>The tab list of the application shell\<close>

text \<open>
  The root component keeps \<^verbatim>\<open>tabs\<close> (an array of tab objects) and \<^verbatim>\<open>activeTab\<close>
  (a tab object or null). A tab object is \<^verbatim>\<open>{ type, server, id }\<close>,
  its type one of the strings "terminal" and "sftp". JavaScript compares
  objects by identity (\<^verbatim>\<open>indexOf\<close>, \<^verbatim>\<open>===\<close>), so every tab object carries the address
  it was allocated at, and the state carries the next free address.
\<close>

datatype tab_type = TerminalTab | SftpTab

record server =
  server_id :: string
  server_name :: string
  server_host :: string
  server_port :: nat
  server_username :: string

record tab =
  tab_ref :: nat
  tab_type :: tab_type
  tab_server :: server
  tab_id :: string

record app =
  tabs :: "tab list"
  activeTab :: "tab option"
  next_ref :: nat

definition initial_app :: app where
  "initial_app = \<lparr>tabs = [], activeTab = None, next_ref = 0\<rparr>"

text \<open>Decimal rendering of a number inside a template string.\<close>

definition digit_char :: "nat \<Rightarrow> char" where
  "digit_char d = ''0123456789'' ! d"

fun decimal :: "nat \<Rightarrow> string" where
  "decimal n = (if n < 10 then [digit_char n] else decimal (n div 10) @ [digit_char (n mod 10)])"

declare decimal.simps [simp del]

text \<open>
  \<^verbatim>\<open>openTerminal(server)\<close>: \<^verbatim>\<open>tabs.find\<close> returns the first tab of type "terminal" whose
  server has the same id; if there is one it becomes the active tab, otherwise a new tab
  object is pushed and becomes active. \<open>now\<close> is the value of \<^verbatim>\<open>Date.now()\<close>.
\<close>

definition openTerminal :: "nat \<Rightarrow> server \<Rightarrow> app \<Rightarrow> app" where
  "openTerminal now server s =
     (case List.find (\<lambda>t. tab_type t = TerminalTab \<and> server_id (tab_server t) = server_id server) (tabs s) of
        Some existingTab \<Rightarrow> s\<lparr>activeTab := Some existingTab\<rparr>
      | None \<Rightarrow>
          (let newTab = \<lparr>tab_ref = next_ref s, tab_type = TerminalTab, tab_server = server,
                         tab_id = ''terminal-'' @ server_id server @ ''-'' @ decimal now\<rparr>
           in s\<lparr>tabs := tabs s @ [newTab], activeTab := Some newTab, next_ref := Suc (next_ref s)\<rparr>))"

definition openSftp :: "nat \<Rightarrow> server \<Rightarrow> app \<Rightarrow> app" where
  "openSftp now server s =
     (case List.find (\<lambda>t. tab_type t = SftpTab \<and> server_id (tab_server t) = server_id server) (tabs s) of
        Some existingTab \<Rightarrow> s\<lparr>activeTab := Some existingTab\<rparr>
      | None \<Rightarrow>
          (let newTab = \<lparr>tab_ref = next_ref s, tab_type = SftpTab, tab_server = server,
                         tab_id = ''sftp-'' @ server_id server @ ''-'' @ decimal now\<rparr>
           in s\<lparr>tabs := tabs s @ [newTab], activeTab := Some newTab, next_ref := Suc (next_ref s)\<rparr>))"

text \<open>\<^verbatim>\<open>Array.prototype.indexOf\<close> on objects: the first index holding the same object, or -1.\<close>

fun indexOf :: "tab list \<Rightarrow> tab \<Rightarrow> int" where
  "indexOf [] t = -1"
| "indexOf (x # xs) t =
     (if tab_ref x = tab_ref t then 0
      else (let i = indexOf xs t in if i = -1 then -1 else i + 1))"

text \<open>\<^verbatim>\<open>xs.splice(index, 1)\<close> for an index inside the array.\<close>

definition splice1 :: "nat \<Rightarrow> 'a list \<Rightarrow> 'a list" where
  "splice1 i xs = take i xs @ drop (Suc i) xs"

text \<open>\<^verbatim>\<open>xs[i] || null\<close>: reading past the end gives undefined, hence null.\<close>

definition at_or_null :: "'a list \<Rightarrow> nat \<Rightarrow> 'a option" where
  "at_or_null xs i = (if i < length xs then Some (xs ! i) else None)"

definition same_object :: "tab option \<Rightarrow> tab \<Rightarrow> bool" where
  "same_object a t = (case a of None \<Rightarrow> False | Some x \<Rightarrow> tab_ref x = tab_ref t)"

definition closeTab :: "tab \<Rightarrow> app \<Rightarrow> app" where
  "closeTab t s =
     (let index = indexOf (tabs s) t in
      if index > -1 then
        (let tabs' = splice1 (nat index) (tabs s) in
         if same_object (activeTab s) t
         then s\<lparr>tabs := tabs', activeTab := at_or_null tabs' (nat (max 0 (index - 1)))\<rparr>
         else s\<lparr>tabs := tabs'\<rparr>)
      else s)"

datatype action = OpenTerminal nat server | OpenSftp nat server | CloseTab tab

fun step :: "app \<Rightarrow> action \<Rightarrow> app" where
  "step s (OpenTerminal now srv) = openTerminal now srv s"
| "step s (OpenSftp now srv) = openSftp now srv s"
| "step s (CloseTab t) = closeTab t s"

definition run :: "action list \<Rightarrow> app \<Rightarrow> app" where
  "run acts s = foldl step s acts"

text \<open>The key of a tab: its type and the id of its server.\<close>

definition tab_key :: "tab \<Rightarrow> tab_type \<times> string" where
  "tab_key t = (tab_type t, server_id (tab_server t))"

definition unique_tabs :: "tab list \<Rightarrow> bool" where
  "unique_tabs ts = distinct (map tab_key ts)"


section \<open>The server list and its search box\<close>

text \<open>
  The search box filters the server summaries returned by \<^verbatim>\<open>get_servers\<close>. A
  JavaScript string is a sequence of UTF-16 code units; the code units are of an abstract
  type \<open>'c\<close>. The built-ins of the runtime that the filter calls are parameters:
  \<^verbatim>\<open>toLowerCase\<close>, a function on whole strings (Unicode lowering is not done code
  unit by code unit), and the test for white space and line terminators behind
  \<^verbatim>\<open>trim\<close> (each of them is a single code unit). What \<^verbatim>\<open>trim\<close> strips and what
  \<^verbatim>\<open>includes\<close> searches for is defined from them.
\<close>

record 'c server_summary =
  summary_id :: "'c list"
  summary_name :: "'c list"
  summary_host :: "'c list"
  summary_port :: nat
  summary_username :: "'c list"

text \<open>\<^verbatim>\<open>trim\<close>: white space is removed from both ends.\<close>

definition trim :: "('c \<Rightarrow> bool) \<Rightarrow> 'c list \<Rightarrow> 'c list" where
  "trim isWhiteSpace s = rev (dropWhile isWhiteSpace (rev (dropWhile isWhiteSpace s)))"

text \<open>\<^verbatim>\<open>s.includes(q)\<close>: \<open>q\<close> occurs in \<open>s\<close> at some position, code unit for code unit.\<close>

fun includes_str :: "'c list \<Rightarrow> 'c list \<Rightarrow> bool" where
  "includes_str [] q = (q = [])"
| "includes_str (c # s) q = (prefix q (c # s) \<or> includes_str s q)"

text \<open>
  \<^verbatim>\<open>filteredServers\<close>: the computed property of the server list. An empty string is
  falsy, so \<^verbatim>\<open>!query\<close> holds exactly for the empty query.
\<close>

definition filteredServers ::
    "('c list \<Rightarrow> 'c list) \<Rightarrow> ('c \<Rightarrow> bool) \<Rightarrow> 'c server_summary list \<Rightarrow> 'c list
       \<Rightarrow> 'c server_summary list" where
  "filteredServers toLowerCase isWhiteSpace servers searchQuery =
     (let query = trim isWhiteSpace (toLowerCase searchQuery) in
      if query = [] then servers
      else filter (\<lambda>server.
             includes_str (toLowerCase (summary_name server)) query \<or>
             includes_str (toLowerCase (summary_host server)) query \<or>
             includes_str (toLowerCase (summary_username server)) query) servers)"

text \<open>A query made of white space only (the empty query is one).\<close>

definition whitespace_only :: "('c \<Rightarrow> bool) \<Rightarrow> 'c list \<Rightarrow> bool" where
  "whitespace_only isWhiteSpace q = list_all isWhiteSpace q"

text \<open>
  Lowering neither makes nor unmakes a string of white space only. The lowering of the
  runtime is such: no white-space code unit or line terminator has a case mapping, and
  no case mapping yields one.
\<close>

definition lowering_keeps_white_space :: "('c list \<Rightarrow> 'c list) \<Rightarrow> ('c \<Rightarrow> bool) \<Rightarrow> bool" where
  "lowering_keeps_white_space toLowerCase isWhiteSpace \<longleftrightarrow>
     (\<forall>s. list_all isWhiteSpace (toLowerCase s) = list_all isWhiteSpace s)"

text \<open>
  The built-ins on strings whose code units are all below U+0100, the code units the
  type \<open>char\<close> holds. There the white space and line terminators are U+0009 to U+000D,
  U+0020 and U+00A0, and lowering maps A to Z and U+00C0 to U+00DE (without the
  multiplication sign U+00D7) to the code unit 32 above and leaves the others.
\<close>

definition latin1_isWhiteSpace :: "char \<Rightarrow> bool" where
  "latin1_isWhiteSpace c =
     (c \<in> set [CHR 0x09, CHR 0x0A, CHR 0x0B, CHR 0x0C, CHR 0x0D, CHR 0x20, CHR 0xA0])"

definition latin1_upper :: "char list" where
  "latin1_upper =
       [CHR 0x41, CHR 0x42, CHR 0x43, CHR 0x44, CHR 0x45, CHR 0x46, CHR 0x47, CHR 0x48,
        CHR 0x49, CHR 0x4A, CHR 0x4B, CHR 0x4C, CHR 0x4D, CHR 0x4E, CHR 0x4F, CHR 0x50,
        CHR 0x51, CHR 0x52, CHR 0x53, CHR 0x54, CHR 0x55, CHR 0x56, CHR 0x57, CHR 0x58,
        CHR 0x59, CHR 0x5A, CHR 0xC0, CHR 0xC1, CHR 0xC2, CHR 0xC3, CHR 0xC4, CHR 0xC5,
        CHR 0xC6, CHR 0xC7, CHR 0xC8, CHR 0xC9, CHR 0xCA, CHR 0xCB, CHR 0xCC, CHR 0xCD,
        CHR 0xCE, CHR 0xCF, CHR 0xD0, CHR 0xD1, CHR 0xD2, CHR 0xD3, CHR 0xD4, CHR 0xD5,
        CHR 0xD6, CHR 0xD8, CHR 0xD9, CHR 0xDA, CHR 0xDB, CHR 0xDC, CHR 0xDD, CHR 0xDE]"

definition latin1_lower :: "char list" where
  "latin1_lower =
       [CHR 0x61, CHR 0x62, CHR 0x63, CHR 0x64, CHR 0x65, CHR 0x66, CHR 0x67, CHR 0x68,
        CHR 0x69, CHR 0x6A, CHR 0x6B, CHR 0x6C, CHR 0x6D, CHR 0x6E, CHR 0x6F, CHR 0x70,
        CHR 0x71, CHR 0x72, CHR 0x73, CHR 0x74, CHR 0x75, CHR 0x76, CHR 0x77, CHR 0x78,
        CHR 0x79, CHR 0x7A, CHR 0xE0, CHR 0xE1, CHR 0xE2, CHR 0xE3, CHR 0xE4, CHR 0xE5,
        CHR 0xE6, CHR 0xE7, CHR 0xE8, CHR 0xE9, CHR 0xEA, CHR 0xEB, CHR 0xEC, CHR 0xED,
        CHR 0xEE, CHR 0xEF, CHR 0xF0, CHR 0xF1, CHR 0xF2, CHR 0xF3, CHR 0xF4, CHR 0xF5,
        CHR 0xF6, CHR 0xF8, CHR 0xF9, CHR 0xFA, CHR 0xFB, CHR 0xFC, CHR 0xFD, CHR 0xFE]"

definition latin1_lower_char :: "char \<Rightarrow> char" where
  "latin1_lower_char c =
     (case map_of (zip latin1_upper latin1_lower) c of Some l \<Rightarrow> l | None \<Rightarrow> c)"

definition latin1_toLowerCase :: "string \<Rightarrow> string" where
  "latin1_toLowerCase s = map latin1_lower_char s"

section \<open>The terminal component\<close>

text \<open>
  The module-level variables of the terminal component: the xterm instance (its current
  \<^verbatim>\<open>cols\<close> and \<^verbatim>\<open>rows\<close>) or null, the fit addon, the session id returned by
  \<^verbatim>\<open>ssh_connect\<close> or null, the unlisten function of the data subscription, the resize
  observer, and the last dimensions sent. \<open>invoked\<close> records the commands the component
  has sent to the backend, oldest first.
\<close>

record xterm =
  cols :: nat
  rows :: nat

datatype command =
    ssh_connect_cmd string nat nat
  | ssh_resize_cmd string nat nat
  | ssh_disconnect_cmd string

datatype conn_status = connecting | connected | error

record terminal_component =
  terminal :: "xterm option"
  fitAddon :: bool
  sessionId :: "string option"
  unlistenData :: bool
  resizeObserver :: bool
  terminalRef :: bool
  lastCols :: nat
  lastRows :: nat
  status :: conn_status
  invoked :: "command list"

record rect =
  width :: real
  height :: real

text \<open>\<^verbatim>\<open>if (sessionId)\<close>: null and the empty string are falsy.\<close>

definition truthy :: "string option \<Rightarrow> bool" where
  "truthy v = (case v of None \<Rightarrow> False | Some x \<Rightarrow> x \<noteq> [])"

text \<open>
  \<^verbatim>\<open>fitAddon.fit()\<close> resizes the xterm instance to the dimensions that fit its container;
  \<open>fitted\<close> is what the addon computes from the layout.
\<close>

definition fit :: "nat \<times> nat \<Rightarrow> terminal_component \<Rightarrow> terminal_component" where
  "fit fitted c =
     (case terminal c of
        None \<Rightarrow> c
      | Some t \<Rightarrow> c\<lparr>terminal := Some (t\<lparr>cols := fst fitted, rows := snd fitted\<rparr>)\<rparr>)"

text \<open>The callback of the \<^verbatim>\<open>ResizeObserver\<close> created in \<^verbatim>\<open>connect\<close>.\<close>

definition onResize :: "rect \<Rightarrow> nat \<times> nat \<Rightarrow> terminal_component \<Rightarrow> terminal_component" where
  "onResize r fitted c =
     (if fitAddon c \<and> terminal c \<noteq> None \<and> truthy (sessionId c) \<and> terminalRef c then
        (if width r > 0 \<and> height r > 0 then
           (let c1 = fit fitted c in
            case (terminal c1, sessionId c1) of
              (Some t, Some sid) \<Rightarrow>
                (if cols t \<noteq> lastCols c1 \<or> rows t \<noteq> lastRows c1
                 then c1\<lparr>lastCols := cols t, lastRows := rows t,
                         invoked := invoked c1 @ [ssh_resize_cmd sid (cols t) (rows t)]\<rparr>
                 else c1)
            | _ \<Rightarrow> c1)
         else c)
      else c)"

text \<open>The watcher of the \<^verbatim>\<open>active\<close> property: a tab that becomes active is fitted again.\<close>

definition onActive :: "bool \<Rightarrow> nat \<times> nat \<Rightarrow> terminal_component \<Rightarrow> terminal_component" where
  "onActive isActive fitted c =
     (if isActive \<and> terminal c \<noteq> None \<and> fitAddon c \<and> status c = connected
      then fit fitted c else c)"

text \<open>
  The state in which a successful \<^verbatim>\<open>connect\<close> leaves the component: the terminal was
  fitted to \<open>dims\<close>, \<^verbatim>\<open>ssh_connect\<close> was invoked with them and returned \<open>sid\<close>, the
  listeners and the observer are installed and the initial dimensions are stored.
\<close>

definition connect_ok :: "string \<Rightarrow> string \<Rightarrow> nat \<times> nat \<Rightarrow> terminal_component \<Rightarrow> terminal_component" where
  "connect_ok srv sid dims c =
     c\<lparr>terminal := Some \<lparr>cols = fst dims, rows = snd dims\<rparr>, fitAddon := True,
       sessionId := Some sid, unlistenData := True, resizeObserver := True,
       lastCols := fst dims, lastRows := snd dims, status := connected,
       invoked := invoked c @ [ssh_connect_cmd srv (fst dims) (snd dims)]\<rparr>"

datatype event = Resize rect "nat \<times> nat" | Activate bool "nat \<times> nat"

fun handle :: "terminal_component \<Rightarrow> event \<Rightarrow> terminal_component" where
  "handle c (Resize r fitted) = onResize r fitted c"
| "handle c (Activate a fitted) = onActive a fitted c"

text \<open>The dimensions the backend was told, in order: at connect and at every resize.\<close>

fun sent_dims :: "command list \<Rightarrow> (nat \<times> nat) list" where
  "sent_dims [] = []"
| "sent_dims (ssh_connect_cmd srv c r # xs) = (c, r) # sent_dims xs"
| "sent_dims (ssh_resize_cmd sid c r # xs) = (c, r) # sent_dims xs"
| "sent_dims (ssh_disconnect_cmd sid # xs) = sent_dims xs"

fun resize_requests :: "command list \<Rightarrow> nat" where
  "resize_requests [] = 0"
| "resize_requests (ssh_resize_cmd sid c r # xs) = Suc (resize_requests xs)"
| "resize_requests (x # xs) = resize_requests xs"

text \<open>The module-level variables as they are initialised when the component is set up.\<close>

definition initial_component :: terminal_component where
  "initial_component =
     \<lparr>terminal = None, fitAddon = False, sessionId = None, unlistenData = False,
      resizeObserver = False, terminalRef = True, lastCols = 0, lastRows = 0,
      status = connecting, invoked = []\<rparr>"

text \<open>The guards under which the observer's callback fits the terminal at all.\<close>

definition resize_enabled :: "rect \<Rightarrow> terminal_component \<Rightarrow> bool" where
  "resize_enabled r c \<longleftrightarrow>
     fitAddon c \<and> terminal c \<noteq> None \<and> truthy (sessionId c) \<and> terminalRef c
     \<and> width r > 0 \<and> height r > 0"

text \<open>The stored dimensions are the last ones the backend was told, and no two
  dimensions told in a row are equal.\<close>

definition last_sent_inv :: "terminal_component \<Rightarrow> bool" where
  "last_sent_inv c \<longleftrightarrow>
     sent_dims (invoked c) \<noteq> [] \<and> last (sent_dims (invoked c)) = (lastCols c, lastRows c)
     \<and> distinct_adj (sent_dims (invoked c))"

subsection \<open>Disconnecting\<close>

datatype app_error =
    ConnectionError | AuthenticationError | ProxyError | ProtocolError | IOError
  | ValidationError | CryptoError | NotFoundError | SessionStateError

datatype outcome = Completed | Raised app_error

text \<open>
  \<^verbatim>\<open>disconnect\<close> of the terminal component. \<^verbatim>\<open>await sshDisconnect(sessionId)\<close> sends the
  command to the backend; \<open>backend\<close> is the backend's handler of that command, acting on
  the backend's state and answering with an error or not. A rejected command raises out
  of \<^verbatim>\<open>disconnect\<close> at the \<^verbatim>\<open>await\<close>, so nothing after it runs.
\<close>

definition release :: "terminal_component \<Rightarrow> terminal_component" where
  "release c =
     (let c1 = (if unlistenData c then c\<lparr>unlistenData := False\<rparr> else c);
          c2 = (if resizeObserver c1 then c1\<lparr>resizeObserver := False\<rparr> else c1)
      in (if terminal c2 \<noteq> None then c2\<lparr>terminal := None\<rparr> else c2))"

definition disconnect ::
    "(string \<Rightarrow> 'w \<Rightarrow> app_error option \<times> 'w) \<Rightarrow> terminal_component \<times> 'w
       \<Rightarrow> outcome \<times> terminal_component \<times> 'w" where
  "disconnect backend cw =
     (let c = fst cw; w = snd cw in
      case sessionId c of
        None \<Rightarrow> (Completed, release c, w)
      | Some sid \<Rightarrow>
          if sid = [] then (Completed, release c, w)
          else
            (let c1 = c\<lparr>invoked := invoked c @ [ssh_disconnect_cmd sid]\<rparr> in
             case backend sid w of
               (Some e, w') \<Rightarrow> (Raised e, c1, w')
             | (None, w') \<Rightarrow> (Completed, release (c1\<lparr>sessionId := None\<rparr>), w')))"

text \<open>
  The session registry of the backend is not among the sources; what follows is taken
  from the spec. The registry owns the live sessions by session id; each live session
  has an open connection and a running read loop.
\<close>

datatype kind = Shell | SftpTransfer

datatype session_status = Connecting | Connected | Closed | Errored

record session =
  owner_profile :: string
  session_kind :: kind
  session_status :: session_status

record registry =
  sessions :: "string \<rightharpoonup> session"
  connections :: "string set"
  read_loops :: "string set"

definition empty_registry :: registry where
  "empty_registry = \<lparr>sessions = Map.empty, connections = {}, read_loops = {}\<rparr>"

text \<open>
  Modelled from the spec: what a successful connect of the backend (not among the
  sources) leaves in the registry: the session under its id, with its connection open
  and its read loop running.
\<close>

definition open_session :: "string \<Rightarrow> session \<Rightarrow> registry \<Rightarrow> registry" where
  "open_session sid s reg =
     reg\<lparr>sessions := (sessions reg)(sid \<mapsto> s),
         connections := insert sid (connections reg),
         read_loops := insert sid (read_loops reg)\<rparr>"

text \<open>
  Modelled from the spec: the \<^verbatim>\<open>ssh_disconnect\<close> command of the backend (not among the
  sources). Disconnecting closes the connection, stops the read loop and removes the
  session from the registry; for an id the registry does not hold it does nothing and
  reports no error.
\<close>

definition ssh_disconnect :: "string \<Rightarrow> registry \<Rightarrow> app_error option \<times> registry" where
  "ssh_disconnect sid reg =
     (case sessions reg sid of
        None \<Rightarrow> (None, reg)
      | Some s \<Rightarrow>
          (None, reg\<lparr>sessions := (sessions reg)(sid := None),
                     connections := connections reg - {sid},
                     read_loops := read_loops reg - {sid}\<rparr>))"

text \<open>Connections and read loops belong to sessions the registry holds.\<close>

definition registry_ok :: "registry \<Rightarrow> bool" where
  "registry_ok reg \<longleftrightarrow> connections reg \<subseteq> dom (sessions reg) \<and> read_loops reg \<subseteq> dom (sessions reg)"

section \<open>The credential store\<close>

text \<open>
  The credential store of the backend is not among the sources (the frontend only
  forwards \<^verbatim>\<open>save_server\<close>, \<^verbatim>\<open>get_server\<close> and \<^verbatim>\<open>delete_server\<close>); what follows is
  taken from the spec. A profile has an id (absent until the store assigns one), name,
  host, port, user name, authentication (a password, or a private key with an optional
  passphrase), an optional proxy and notes. The store is the ordered sequence of its
  profiles. Encryption at rest does not show in what the operations return and is left
  out.
\<close>

datatype auth = Password string | PrivateKey string "string option"

datatype proxy_type = SOCKS5 | HTTP

record proxy =
  proxy_type :: proxy_type
  proxy_host :: string
  proxy_port :: nat
  proxy_username :: "string option"
  proxy_password :: "string option"

record profile =
  profile_id :: "nat option"
  profile_name :: string
  profile_host :: string
  profile_port :: nat
  profile_username :: string
  profile_auth :: auth
  profile_proxy :: "proxy option"
  profile_notes :: string

type_synonym store = "profile list"

text \<open>
  Modelled from the spec: the validation of the backend (not among the sources). Name,
  host and user name are not empty, the port is in 1..65535.
\<close>

definition valid_profile :: "profile \<Rightarrow> bool" where
  "valid_profile p \<longleftrightarrow>
     profile_name p \<noteq> [] \<and> profile_host p \<noteq> [] \<and> profile_username p \<noteq> []
     \<and> 1 \<le> profile_port p \<and> profile_port p \<le> 65535"

definition has_id :: "nat \<Rightarrow> profile \<Rightarrow> bool" where
  "has_id i p \<longleftrightarrow> profile_id p = Some i"

text \<open>
  Modelled from the spec: the id the backend (not among the sources) assigns to a
  profile saved without one, a new unique id. Here: one above every id in the store.
\<close>

fun max_id :: "store \<Rightarrow> nat" where
  "max_id [] = 0"
| "max_id (p # ps) = max (case profile_id p of None \<Rightarrow> 0 | Some i \<Rightarrow> i) (max_id ps)"

definition fresh_id :: "store \<Rightarrow> nat" where
  "fresh_id st = Suc (max_id st)"

text \<open>
  Modelled from the spec: upsert by id in the store of the backend (not among the
  sources): replace the profile stored under the id, or add the profile.
\<close>

definition upsert :: "nat \<Rightarrow> profile \<Rightarrow> store \<Rightarrow> store" where
  "upsert i p st =
     (if list_ex (has_id i) st then map (\<lambda>q. if has_id i q then p else q) st else st @ [p])"

text \<open>
  Modelled from the spec: \<^verbatim>\<open>save_server\<close> of the backend (not among the sources):
  validates the required fields, assigns a new unique id when the profile has none,
  upserts by id, and returns the id.
\<close>

definition save_server :: "profile \<Rightarrow> store \<Rightarrow> app_error + (nat \<times> store)" where
  "save_server p st =
     (if \<not> valid_profile p then Inl ValidationError
      else case profile_id p of
             None \<Rightarrow> (let i = fresh_id st in Inr (i, st @ [p\<lparr>profile_id := Some i\<rparr>]))
           | Some i \<Rightarrow> Inr (i, upsert i p st))"

text \<open>
  Modelled from the spec: \<^verbatim>\<open>get_server\<close> of the backend (not among the sources): the
  full profile stored under the id, or \<open>NotFoundError\<close>.
\<close>

definition get_server :: "nat \<Rightarrow> store \<Rightarrow> app_error + profile" where
  "get_server i st =
     (case List.find (has_id i) st of None \<Rightarrow> Inl NotFoundError | Some p \<Rightarrow> Inr p)"

text \<open>
  Modelled from the spec: \<^verbatim>\<open>delete_server\<close> of the backend (not among the sources):
  \<open>NotFoundError\<close> if the id is absent, otherwise the profile is removed.
\<close>

definition delete_server :: "nat \<Rightarrow> store \<Rightarrow> app_error + store" where
  "delete_server i st =
     (if list_ex (has_id i) st then Inr (filter (\<lambda>q. \<not> has_id i q) st) else Inl NotFoundError)"

text \<open>Ids are unique across the store, and every stored profile has one.\<close>

definition store_ok :: "store \<Rightarrow> bool" where
  "store_ok st \<longleftrightarrow> distinct (map profile_id st) \<and> None \<notin> set (map profile_id st)"

section \<open>Properties\<close>

subsection \<open>Tabs: at most one per server and type\<close>

lemma splice1_Nil: "splice1 i [] = []"
  by (simp add: splice1_def)

lemma splice1_0: "splice1 0 (x # xs) = xs"
  by (simp add: splice1_def)

lemma splice1_Suc: "splice1 (Suc i) (x # xs) = x # splice1 i xs"
  by (simp add: splice1_def)

lemma splice1_subseq: "subseq (splice1 i xs) xs"
proof (induction xs arbitrary: i)
  case Nil
  show ?case by (simp add: splice1_Nil)
next
  case (Cons x xs)
  show ?case
  proof (cases i)
    case 0
    then show ?thesis by (simp add: splice1_0 list_emb_Cons)
  next
    case (Suc j)
    then show ?thesis using Cons.IH[of j] by (simp add: splice1_Suc)
  qed
qed

lemma subseq_distinct_map:
  "subseq xs ys \<Longrightarrow> distinct (map f ys) \<Longrightarrow> distinct (map f xs)"
proof (induction rule: list_emb.induct)
  case (list_emb_Nil ys)
  then show ?case by simp
next
  case (list_emb_Cons xs ys y)
  then show ?case by simp
next
  case (list_emb_Cons2 x y xs ys)
  then have "set xs \<subseteq> set ys" by (auto elim: list_emb_set)
  with list_emb_Cons2 show ?case by auto
qed

lemma find_None_key:
  "List.find (\<lambda>t. tab_type t = ty \<and> server_id (tab_server t) = i) ts = None
     \<longleftrightarrow> (ty, i) \<notin> set (map tab_key ts)"
  by (auto simp: find_None_iff tab_key_def)

lemma find_Some_key:
  "List.find (\<lambda>t. tab_type t = ty \<and> server_id (tab_server t) = i) ts = Some e
     \<Longrightarrow> e \<in> set ts \<and> tab_key e = (ty, i)"
  by (auto simp: find_Some_iff tab_key_def)

lemma tabs_openTerminal:
  "tabs (openTerminal now srv s) =
     (if (TerminalTab, server_id srv) \<in> set (map tab_key (tabs s)) then tabs s
      else tabs s @ [\<lparr>tab_ref = next_ref s, tab_type = TerminalTab, tab_server = srv,
                      tab_id = ''terminal-'' @ server_id srv @ ''-'' @ decimal now\<rparr>])"
proof (cases "List.find (\<lambda>t. tab_type t = TerminalTab \<and> server_id (tab_server t) = server_id srv) (tabs s)")
  case None
  then show ?thesis using find_None_key[of TerminalTab "server_id srv" "tabs s"]
    by (simp add: openTerminal_def Let_def)
next
  case (Some e)
  then show ?thesis using find_None_key[of TerminalTab "server_id srv" "tabs s"]
    by (simp add: openTerminal_def)
qed

lemma tabs_openSftp:
  "tabs (openSftp now srv s) =
     (if (SftpTab, server_id srv) \<in> set (map tab_key (tabs s)) then tabs s
      else tabs s @ [\<lparr>tab_ref = next_ref s, tab_type = SftpTab, tab_server = srv,
                      tab_id = ''sftp-'' @ server_id srv @ ''-'' @ decimal now\<rparr>])"
proof (cases "List.find (\<lambda>t. tab_type t = SftpTab \<and> server_id (tab_server t) = server_id srv) (tabs s)")
  case None
  then show ?thesis using find_None_key[of SftpTab "server_id srv" "tabs s"]
    by (simp add: openSftp_def Let_def)
next
  case (Some e)
  then show ?thesis using find_None_key[of SftpTab "server_id srv" "tabs s"]
    by (simp add: openSftp_def)
qed

lemma openTerminal_existing:
  assumes "(TerminalTab, server_id srv) \<in> set (map tab_key (tabs s))"
  shows "\<exists>e \<in> set (tabs s). tab_key e = (TerminalTab, server_id srv)
           \<and> activeTab (openTerminal now srv s) = Some e"
proof (cases "List.find (\<lambda>t. tab_type t = TerminalTab \<and> server_id (tab_server t) = server_id srv) (tabs s)")
  case None
  with assms show ?thesis using find_None_key[of TerminalTab "server_id srv" "tabs s"] by simp
next
  case (Some e)
  then show ?thesis using find_Some_key[OF Some] by (auto simp: openTerminal_def)
qed

lemma openSftp_existing:
  assumes "(SftpTab, server_id srv) \<in> set (map tab_key (tabs s))"
  shows "\<exists>e \<in> set (tabs s). tab_key e = (SftpTab, server_id srv)
           \<and> activeTab (openSftp now srv s) = Some e"
proof (cases "List.find (\<lambda>t. tab_type t = SftpTab \<and> server_id (tab_server t) = server_id srv) (tabs s)")
  case None
  with assms show ?thesis using find_None_key[of SftpTab "server_id srv" "tabs s"] by simp
next
  case (Some e)
  then show ?thesis using find_Some_key[OF Some] by (auto simp: openSftp_def)
qed

lemma openTerminal_new:
  assumes "(TerminalTab, server_id srv) \<notin> set (map tab_key (tabs s))"
  shows "\<exists>n. tabs (openTerminal now srv s) = tabs s @ [n] \<and> tab_key n = (TerminalTab, server_id srv)
           \<and> activeTab (openTerminal now srv s) = Some n"
proof -
  from assms have "List.find (\<lambda>t. tab_type t = TerminalTab \<and> server_id (tab_server t) = server_id srv) (tabs s) = None"
    using find_None_key[of TerminalTab "server_id srv" "tabs s"] by simp
  then show ?thesis by (simp add: openTerminal_def Let_def tab_key_def)
qed

lemma openSftp_new:
  assumes "(SftpTab, server_id srv) \<notin> set (map tab_key (tabs s))"
  shows "\<exists>n. tabs (openSftp now srv s) = tabs s @ [n] \<and> tab_key n = (SftpTab, server_id srv)
           \<and> activeTab (openSftp now srv s) = Some n"
proof -
  from assms have "List.find (\<lambda>t. tab_type t = SftpTab \<and> server_id (tab_server t) = server_id srv) (tabs s) = None"
    using find_None_key[of SftpTab "server_id srv" "tabs s"] by simp
  then show ?thesis by (simp add: openSftp_def Let_def tab_key_def)
qed

lemma tabs_closeTab:
  "tabs (closeTab t s) =
     (if indexOf (tabs s) t > -1 then splice1 (nat (indexOf (tabs s) t)) (tabs s) else tabs s)"
  by (simp add: closeTab_def Let_def)

lemma closeTab_subseq: "subseq (tabs (closeTab t s)) (tabs s)"
  by (simp add: tabs_closeTab splice1_subseq)

lemma openTerminal_unique:
  "unique_tabs (tabs s) \<Longrightarrow> unique_tabs (tabs (openTerminal now srv s))"
  by (simp add: tabs_openTerminal unique_tabs_def tab_key_def)

lemma openSftp_unique:
  "unique_tabs (tabs s) \<Longrightarrow> unique_tabs (tabs (openSftp now srv s))"
  by (simp add: tabs_openSftp unique_tabs_def tab_key_def)

lemma closeTab_unique:
  "unique_tabs (tabs s) \<Longrightarrow> unique_tabs (tabs (closeTab t s))"
  unfolding unique_tabs_def
  using subseq_distinct_map[OF closeTab_subseq] by blast

lemma step_unique: "unique_tabs (tabs s) \<Longrightarrow> unique_tabs (tabs (step s a))"
  by (cases a) (simp_all add: openTerminal_unique openSftp_unique closeTab_unique)

lemma run_unique: "unique_tabs (tabs s) \<Longrightarrow> unique_tabs (tabs (run acts s))"
  unfolding run_def
  by (induction acts arbitrary: s) (simp_all add: step_unique)

lemma initial_unique: "unique_tabs (tabs initial_app)"
  by (simp add: initial_app_def unique_tabs_def)

lemma distinct_map_at_most_one:
  "distinct (map f xs) \<Longrightarrow> length (filter (\<lambda>x. f x = k) xs) \<le> 1"
proof (induction xs)
  case Nil
  then show ?case by simp
next
  case (Cons x xs)
  show ?case
  proof (cases "f x = k")
    case True
    with Cons.prems have "\<forall>y \<in> set xs. f y \<noteq> k" by (auto simp: image_iff)
    then have "filter (\<lambda>x. f x = k) xs = []" by (simp add: filter_empty_conv)
    with True show ?thesis by simp
  next
    case False
    with Cons show ?thesis by simp
  qed
qed

lemma unique_tabs_at_most_one:
  assumes "unique_tabs ts"
  shows "length (filter (\<lambda>t. tab_type t = ty \<and> server_id (tab_server t) = i) ts) \<le> 1"
proof -
  have "(\<lambda>t. tab_type t = ty \<and> server_id (tab_server t) = i) = (\<lambda>t. tab_key t = (ty, i))"
    by (auto simp: tab_key_def)
  with distinct_map_at_most_one[of tab_key ts "(ty, i)"] assms show ?thesis
    by (simp add: unique_tabs_def)
qed

text \<open>
  C9. Starting from the empty tab list, no sequence of \<^verbatim>\<open>openTerminal\<close>, \<^verbatim>\<open>openSftp\<close>
  and \<^verbatim>\<open>closeTab\<close> calls leaves two tabs with the same type and server id: for every
  type and server id at most one tab has them. Every single call preserves this.
  \<^verbatim>\<open>openTerminal\<close> and \<^verbatim>\<open>openSftp\<close> leave the list unchanged and activate an existing
  tab when one with that type and server id is present, and push exactly one new tab
  (which becomes active) otherwise; \<^verbatim>\<open>closeTab\<close> only removes tabs.
\<close>

theorem tabs_unique_per_server_and_type:
  "unique_tabs (tabs (run acts initial_app))
   \<and> length (filter (\<lambda>t. tab_type t = ty \<and> server_id (tab_server t) = i)
               (tabs (run acts initial_app))) \<le> 1
   \<and> (unique_tabs (tabs s) \<longrightarrow> unique_tabs (tabs (step s a)))
   \<and> ((TerminalTab, server_id srv) \<in> set (map tab_key (tabs s)) \<longrightarrow>
        tabs (openTerminal now srv s) = tabs s \<and>
        (\<exists>e \<in> set (tabs s). tab_key e = (TerminalTab, server_id srv)
            \<and> activeTab (openTerminal now srv s) = Some e))
   \<and> ((TerminalTab, server_id srv) \<notin> set (map tab_key (tabs s)) \<longrightarrow>
        (\<exists>n. tabs (openTerminal now srv s) = tabs s @ [n] \<and> tab_key n = (TerminalTab, server_id srv)
            \<and> activeTab (openTerminal now srv s) = Some n))
   \<and> ((SftpTab, server_id srv) \<in> set (map tab_key (tabs s)) \<longrightarrow>
        tabs (openSftp now srv s) = tabs s \<and>
        (\<exists>e \<in> set (tabs s). tab_key e = (SftpTab, server_id srv)
            \<and> activeTab (openSftp now srv s) = Some e))
   \<and> ((SftpTab, server_id srv) \<notin> set (map tab_key (tabs s)) \<longrightarrow>
        (\<exists>n. tabs (openSftp now srv s) = tabs s @ [n] \<and> tab_key n = (SftpTab, server_id srv)
            \<and> activeTab (openSftp now srv s) = Some n))
   \<and> subseq (tabs (closeTab t s)) (tabs s)"
proof -
  have 1: "unique_tabs (tabs (run acts initial_app))"
    by (rule run_unique [OF initial_unique])
  have u: "length (filter (\<lambda>t. tab_type t = ty \<and> server_id (tab_server t) = i)
               (tabs (run acts initial_app))) \<le> 1"
    by (rule unique_tabs_at_most_one [OF 1])
  have 2: "unique_tabs (tabs s) \<longrightarrow> unique_tabs (tabs (step s a))"
    by (simp add: step_unique)
  have 3: "(TerminalTab, server_id srv) \<in> set (map tab_key (tabs s)) \<longrightarrow>
        tabs (openTerminal now srv s) = tabs s \<and>
        (\<exists>e \<in> set (tabs s). tab_key e = (TerminalTab, server_id srv)
            \<and> activeTab (openTerminal now srv s) = Some e)"
    using openTerminal_existing[of srv s now] by (simp add: tabs_openTerminal)
  have 4: "(TerminalTab, server_id srv) \<notin> set (map tab_key (tabs s)) \<longrightarrow>
        (\<exists>n. tabs (openTerminal now srv s) = tabs s @ [n] \<and> tab_key n = (TerminalTab, server_id srv)
            \<and> activeTab (openTerminal now srv s) = Some n)"
    using openTerminal_new[of srv s now] by blast
  have 5: "(SftpTab, server_id srv) \<in> set (map tab_key (tabs s)) \<longrightarrow>
        tabs (openSftp now srv s) = tabs s \<and>
        (\<exists>e \<in> set (tabs s). tab_key e = (SftpTab, server_id srv)
            \<and> activeTab (openSftp now srv s) = Some e)"
    using openSftp_existing[of srv s now] by (simp add: tabs_openSftp)
  have 6: "(SftpTab, server_id srv) \<notin> set (map tab_key (tabs s)) \<longrightarrow>
        (\<exists>n. tabs (openSftp now srv s) = tabs s @ [n] \<and> tab_key n = (SftpTab, server_id srv)
            \<and> activeTab (openSftp now srv s) = Some n)"
    using openSftp_new[of srv s now] by blast
  have 7: "subseq (tabs (closeTab t s)) (tabs s)"
    by (rule closeTab_subseq)
  from 1 u 2 3 4 5 6 7 show ?thesis by (intro conjI)
qed

theorem tabs_unique_per_server_and_type_witness:
  "length (filter (\<lambda>t. tab_type t = TerminalTab \<and> server_id (tab_server t) = ''a'')
      (tabs (run [OpenTerminal 5 \<lparr>server_id = ''a'', server_name = ''A'', server_host = ''h'', server_port = 22, server_username = ''root''\<rparr>,
                  OpenTerminal 6 \<lparr>server_id = ''a'', server_name = ''A2'', server_host = ''h'', server_port = 22, server_username = ''root''\<rparr>]
             initial_app))) \<le> 1
   \<and> unique_tabs (tabs (run [OpenTerminal 5 \<lparr>server_id = ''a'', server_name = ''A'', server_host = ''h'', server_port = 22, server_username = ''root''\<rparr>] initial_app))
   \<and> (TerminalTab, ''a'') \<in> set (map tab_key (tabs (run [OpenTerminal 5 \<lparr>server_id = ''a'', server_name = ''A'', server_host = ''h'', server_port = 22, server_username = ''root''\<rparr>] initial_app)))
   \<and> (SftpTab, ''a'') \<notin> set (map tab_key (tabs (run [OpenTerminal 5 \<lparr>server_id = ''a'', server_name = ''A'', server_host = ''h'', server_port = 22, server_username = ''root''\<rparr>] initial_app)))
   \<and> unique_tabs (tabs (step (run [OpenTerminal 5 \<lparr>server_id = ''a'', server_name = ''A'', server_host = ''h'', server_port = 22, server_username = ''root''\<rparr>] initial_app)
                           (OpenSftp 7 \<lparr>server_id = ''a'', server_name = ''A'', server_host = ''h'', server_port = 22, server_username = ''root''\<rparr>)))
   \<and> tabs (openTerminal 6 \<lparr>server_id = ''a'', server_name = ''A2'', server_host = ''h'', server_port = 22, server_username = ''root''\<rparr>
              (run [OpenTerminal 5 \<lparr>server_id = ''a'', server_name = ''A'', server_host = ''h'', server_port = 22, server_username = ''root''\<rparr>] initial_app))
       = tabs (run [OpenTerminal 5 \<lparr>server_id = ''a'', server_name = ''A'', server_host = ''h'', server_port = 22, server_username = ''root''\<rparr>] initial_app)
   \<and> (\<exists>n. tabs (openSftp 6 \<lparr>server_id = ''a'', server_name = ''A2'', server_host = ''h'', server_port = 22, server_username = ''root''\<rparr>
              (run [OpenTerminal 5 \<lparr>server_id = ''a'', server_name = ''A'', server_host = ''h'', server_port = 22, server_username = ''root''\<rparr>] initial_app))
       = tabs (run [OpenTerminal 5 \<lparr>server_id = ''a'', server_name = ''A'', server_host = ''h'', server_port = 22, server_username = ''root''\<rparr>] initial_app) @ [n])"
proof -
  let ?srv = "\<lparr>server_id = ''a'', server_name = ''A'', server_host = ''h'', server_port = 22, server_username = ''root''\<rparr>"
  let ?srv2 = "\<lparr>server_id = ''a'', server_name = ''A2'', server_host = ''h'', server_port = 22, server_username = ''root''\<rparr>"
  let ?s = "run [OpenTerminal 5 ?srv] initial_app"
  have s: "tabs ?s = [\<lparr>tab_ref = 0, tab_type = TerminalTab, tab_server = ?srv, tab_id = ''terminal-a-5''\<rparr>]"
    by (simp add: run_def initial_app_def openTerminal_def Let_def decimal.simps digit_char_def)
  have h1: "unique_tabs (tabs ?s)"
    by (simp add: s unique_tabs_def)
  have h2: "(TerminalTab, ''a'') \<in> set (map tab_key (tabs ?s))"
    by (simp add: s tab_key_def)
  have h3: "(SftpTab, ''a'') \<notin> set (map tab_key (tabs ?s))"
    by (simp add: s tab_key_def)
  from tabs_unique_per_server_and_type[of "[OpenTerminal 5 ?srv, OpenTerminal 6 ?srv2]" TerminalTab "''a''"
        ?s "OpenSftp 7 ?srv" ?srv2 6] h1 h2 h3
  show ?thesis by auto
qed

subsection \<open>Search filter\<close>

lemma includes_str_sublist: "includes_str s q \<longleftrightarrow> sublist q s"
  by (induction s) (simp_all add: sublist_Cons_right)

lemma trim_Nil_iff: "trim ws s = [] \<longleftrightarrow> list_all ws s"
proof
  assume "trim ws s = []"
  then have a: "\<forall>x \<in> set (dropWhile ws s). ws x"
    by (simp add: trim_def)
  have "dropWhile ws s = []"
  proof (rule ccontr)
    assume n: "dropWhile ws s \<noteq> []"
    then have "hd (dropWhile ws s) \<in> set (dropWhile ws s)" by simp
    with a hd_dropWhile[OF n] show False by blast
  qed
  then show "list_all ws s" by (simp add: list_all_iff)
next
  assume "list_all ws s"
  then have d: "dropWhile ws s = []" by (simp add: list_all_iff)
  show "trim ws s = []" unfolding trim_def d by simp
qed

lemma query_empty_iff:
  "lowering_keeps_white_space lower ws \<Longrightarrow> trim ws (lower q) = [] \<longleftrightarrow> whitespace_only ws q"
  by (simp add: trim_Nil_iff whitespace_only_def lowering_keeps_white_space_def)

lemma filteredServers_empty_query:
  "trim ws (lower q) = [] \<Longrightarrow> filteredServers lower ws servers q = servers"
  by (simp add: filteredServers_def)

lemma filteredServers_query:
  "trim ws (lower q) \<noteq> [] \<Longrightarrow>
     filteredServers lower ws servers q =
       filter (\<lambda>s. sublist (trim ws (lower q)) (lower (summary_name s))
                 \<or> sublist (trim ws (lower q)) (lower (summary_host s))
                 \<or> sublist (trim ws (lower q)) (lower (summary_username s))) servers"
  by (simp add: filteredServers_def Let_def includes_str_sublist)

lemma filteredServers_subseq: "subseq (filteredServers lower ws servers q) servers"
  by (simp add: filteredServers_def Let_def)

text \<open>The built-ins on code units below U+0100.\<close>

lemma latin1_lower_char_cases:
  "latin1_lower_char c = c \<or> (c \<in> set latin1_upper \<and> latin1_lower_char c \<in> set latin1_lower)"
proof (cases "map_of (zip latin1_upper latin1_lower) c")
  case None
  then show ?thesis by (simp add: latin1_lower_char_def)
next
  case (Some l)
  then have "(c, l) \<in> set (zip latin1_upper latin1_lower)" by (rule map_of_SomeD)
  then have "c \<in> set latin1_upper" "l \<in> set latin1_lower"
    by (auto dest: set_zip_leftD set_zip_rightD)
  with Some show ?thesis by (simp add: latin1_lower_char_def)
qed

lemma latin1_white_space_not_cased:
  "latin1_isWhiteSpace c \<Longrightarrow> c \<notin> set latin1_upper \<and> c \<notin> set latin1_lower"
  by (auto simp: latin1_isWhiteSpace_def latin1_upper_def latin1_lower_def)

lemma latin1_isWhiteSpace_lower_char:
  "latin1_isWhiteSpace (latin1_lower_char c) \<longleftrightarrow> latin1_isWhiteSpace c"
  using latin1_lower_char_cases[of c] latin1_white_space_not_cased[of c]
    latin1_white_space_not_cased[of "latin1_lower_char c"]
  by auto

lemma latin1_keeps_white_space: "lowering_keeps_white_space latin1_toLowerCase latin1_isWhiteSpace"
proof -
  have "list_all latin1_isWhiteSpace (latin1_toLowerCase s) = list_all latin1_isWhiteSpace s" for s
    by (induction s) (simp_all add: latin1_toLowerCase_def latin1_isWhiteSpace_lower_char)
  then show ?thesis by (simp add: lowering_keeps_white_space_def)
qed

text \<open>
  C10. Whatever the runtime's lowering and white space are: when the lower-cased and
  trimmed query is empty the list is returned unchanged; otherwise exactly the servers
  are kept whose lower-cased name, host or user name contains the lower-cased and trimmed
  query as a contiguous substring; the servers kept are in their original order. With a
  lowering that neither makes nor unmakes strings of white space only, as the runtime's
  is, the first case is that of the empty or white-space-only query and the second that
  of every other query.
\<close>

theorem filteredServers_trimmed_query:
  "(trim isWhiteSpace (toLowerCase q) = [] \<longrightarrow>
      filteredServers toLowerCase isWhiteSpace servers q = servers)
   \<and> (trim isWhiteSpace (toLowerCase q) \<noteq> [] \<longrightarrow>
        filteredServers toLowerCase isWhiteSpace servers q =
          filter (\<lambda>s. sublist (trim isWhiteSpace (toLowerCase q)) (toLowerCase (summary_name s))
                    \<or> sublist (trim isWhiteSpace (toLowerCase q)) (toLowerCase (summary_host s))
                    \<or> sublist (trim isWhiteSpace (toLowerCase q)) (toLowerCase (summary_username s)))
            servers)
   \<and> subseq (filteredServers toLowerCase isWhiteSpace servers q) servers
   \<and> (lowering_keeps_white_space toLowerCase isWhiteSpace \<longrightarrow>
        (whitespace_only isWhiteSpace q \<longrightarrow>
           filteredServers toLowerCase isWhiteSpace servers q = servers)
        \<and> (\<not> whitespace_only isWhiteSpace q \<longrightarrow>
           filteredServers toLowerCase isWhiteSpace servers q =
             filter (\<lambda>s. sublist (trim isWhiteSpace (toLowerCase q)) (toLowerCase (summary_name s))
                       \<or> sublist (trim isWhiteSpace (toLowerCase q)) (toLowerCase (summary_host s))
                       \<or> sublist (trim isWhiteSpace (toLowerCase q)) (toLowerCase (summary_username s)))
               servers)
        \<and> (\<not> whitespace_only isWhiteSpace q \<longrightarrow>
           (\<forall>s. s \<in> set (filteredServers toLowerCase isWhiteSpace servers q) \<longleftrightarrow>
                 s \<in> set servers \<and>
                 (sublist (trim isWhiteSpace (toLowerCase q)) (toLowerCase (summary_name s))
                  \<or> sublist (trim isWhiteSpace (toLowerCase q)) (toLowerCase (summary_host s))
                  \<or> sublist (trim isWhiteSpace (toLowerCase q)) (toLowerCase (summary_username s))))))"
proof -
  let ?f = "filteredServers toLowerCase isWhiteSpace servers q"
  let ?m = "\<lambda>s. sublist (trim isWhiteSpace (toLowerCase q)) (toLowerCase (summary_name s))
                    \<or> sublist (trim isWhiteSpace (toLowerCase q)) (toLowerCase (summary_host s))
                    \<or> sublist (trim isWhiteSpace (toLowerCase q)) (toLowerCase (summary_username s))"
  have 1: "trim isWhiteSpace (toLowerCase q) = [] \<longrightarrow> ?f = servers"
    by (simp add: filteredServers_empty_query)
  have 2: "trim isWhiteSpace (toLowerCase q) \<noteq> [] \<longrightarrow> ?f = filter ?m servers"
    using filteredServers_query[of isWhiteSpace toLowerCase q servers] by blast
  have 3: "subseq ?f servers"
    by (rule filteredServers_subseq)
  have 4: "lowering_keeps_white_space toLowerCase isWhiteSpace \<longrightarrow>
        (whitespace_only isWhiteSpace q \<longrightarrow> ?f = servers)
        \<and> (\<not> whitespace_only isWhiteSpace q \<longrightarrow> ?f = filter ?m servers)
        \<and> (\<not> whitespace_only isWhiteSpace q \<longrightarrow>
             (\<forall>s. s \<in> set ?f \<longleftrightarrow> s \<in> set servers \<and> ?m s))"
  proof
    assume k: "lowering_keeps_white_space toLowerCase isWhiteSpace"
    note e = query_empty_iff[OF k, of q]
    have a: "whitespace_only isWhiteSpace q \<longrightarrow> ?f = servers"
      using 1 e by simp
    have b: "\<not> whitespace_only isWhiteSpace q \<longrightarrow> ?f = filter ?m servers"
      using 2 e by simp
    have c: "\<not> whitespace_only isWhiteSpace q \<longrightarrow>
             (\<forall>s. s \<in> set ?f \<longleftrightarrow> s \<in> set servers \<and> ?m s)"
    proof
      assume "\<not> whitespace_only isWhiteSpace q"
      with b have "?f = filter ?m servers" by simp
      then show "\<forall>s. s \<in> set ?f \<longleftrightarrow> s \<in> set servers \<and> ?m s" by simp
    qed
    from a b c show "(whitespace_only isWhiteSpace q \<longrightarrow> ?f = servers)
        \<and> (\<not> whitespace_only isWhiteSpace q \<longrightarrow> ?f = filter ?m servers)
        \<and> (\<not> whitespace_only isWhiteSpace q \<longrightarrow>
             (\<forall>s. s \<in> set ?f \<longleftrightarrow> s \<in> set servers \<and> ?m s))"
      by (intro conjI)
  qed
  from 1 2 3 4 show ?thesis by (intro conjI)
qed

theorem filteredServers_trimmed_query_witness:
  "lowering_keeps_white_space latin1_toLowerCase latin1_isWhiteSpace
   \<and> whitespace_only latin1_isWhiteSpace [CHR 0x20, CHR 0xA0]
   \<and> trim latin1_isWhiteSpace (latin1_toLowerCase [CHR 0x20, CHR 0xA0]) = []
   \<and> filteredServers latin1_toLowerCase latin1_isWhiteSpace [\<lparr>summary_id = ''1'', summary_name = ''Web'', summary_host = ''h'', summary_port = 22, summary_username = ''root''\<rparr>, \<lparr>summary_id = ''2'', summary_name = ''db'', summary_host = ''h'', summary_port = 22, summary_username = ''root''\<rparr>] [CHR 0x20, CHR 0xA0]
       = [\<lparr>summary_id = ''1'', summary_name = ''Web'', summary_host = ''h'', summary_port = 22, summary_username = ''root''\<rparr>, \<lparr>summary_id = ''2'', summary_name = ''db'', summary_host = ''h'', summary_port = 22, summary_username = ''root''\<rparr>]
   \<and> \<not> whitespace_only latin1_isWhiteSpace '' wE ''
   \<and> trim latin1_isWhiteSpace (latin1_toLowerCase '' wE '') \<noteq> []
   \<and> filteredServers latin1_toLowerCase latin1_isWhiteSpace [\<lparr>summary_id = ''1'', summary_name = ''Web'', summary_host = ''h'', summary_port = 22, summary_username = ''root''\<rparr>, \<lparr>summary_id = ''2'', summary_name = ''db'', summary_host = ''h'', summary_port = 22, summary_username = ''root''\<rparr>] '' wE ''
       = [\<lparr>summary_id = ''1'', summary_name = ''Web'', summary_host = ''h'', summary_port = 22, summary_username = ''root''\<rparr>]
   \<and> filteredServers latin1_toLowerCase latin1_isWhiteSpace [\<lparr>summary_id = ''2'', summary_name = ''db'', summary_host = ''h'', summary_port = 22, summary_username = ''root''\<rparr>, \<lparr>summary_id = ''3'', summary_name = CHR 0xC9 # ''cole'', summary_host = ''h'', summary_port = 22, summary_username = ''root''\<rparr>] [CHR 0xC9, CHR 0x43]
       = [\<lparr>summary_id = ''3'', summary_name = CHR 0xC9 # ''cole'', summary_host = ''h'', summary_port = 22, summary_username = ''root''\<rparr>]"
proof -
  let ?a = "\<lparr>summary_id = ''1'', summary_name = ''Web'', summary_host = ''h'', summary_port = 22, summary_username = ''root''\<rparr>"
  let ?b = "\<lparr>summary_id = ''2'', summary_name = ''db'', summary_host = ''h'', summary_port = 22, summary_username = ''root''\<rparr>"
  let ?e = "\<lparr>summary_id = ''3'', summary_name = CHR 0xC9 # ''cole'', summary_host = ''h'', summary_port = 22, summary_username = ''root''\<rparr>"
  note k = latin1_keeps_white_space
  have h1: "whitespace_only latin1_isWhiteSpace [CHR 0x20, CHR 0xA0]"
    by (simp add: whitespace_only_def latin1_isWhiteSpace_def)
  have h2: "\<not> whitespace_only latin1_isWhiteSpace '' wE ''"
    by (simp add: whitespace_only_def latin1_isWhiteSpace_def)
  have t1: "trim latin1_isWhiteSpace (latin1_toLowerCase [CHR 0x20, CHR 0xA0]) = []"
    by (simp add: trim_def latin1_toLowerCase_def latin1_lower_char_def latin1_upper_def
          latin1_lower_def latin1_isWhiteSpace_def)
  have t2: "trim latin1_isWhiteSpace (latin1_toLowerCase '' wE '') = ''we''"
    by (simp add: trim_def latin1_toLowerCase_def latin1_lower_char_def latin1_upper_def
          latin1_lower_def latin1_isWhiteSpace_def)
  have t3: "trim latin1_isWhiteSpace (latin1_toLowerCase [CHR 0xC9, CHR 0x43]) = [CHR 0xE9, CHR 0x63]"
    by (simp add: trim_def latin1_toLowerCase_def latin1_lower_char_def latin1_upper_def
          latin1_lower_def latin1_isWhiteSpace_def)
  have n: "latin1_toLowerCase ''Web'' = ''web''" "latin1_toLowerCase ''db'' = ''db''"
      "latin1_toLowerCase ''h'' = ''h''" "latin1_toLowerCase ''root'' = ''root''"
      "latin1_toLowerCase (CHR 0xC9 # ''cole'') = CHR 0xE9 # ''cole''"
    by (simp_all add: latin1_toLowerCase_def latin1_lower_char_def latin1_upper_def latin1_lower_def)
  have m: "sublist ''we'' ''web''" "\<not> sublist ''we'' ''db''" "\<not> sublist ''we'' ''h''"
      "\<not> sublist ''we'' ''root''"
      "sublist [CHR 0xE9, CHR 0x63] (CHR 0xE9 # ''cole'')" "\<not> sublist [CHR 0xE9, CHR 0x63] ''db''"
      "\<not> sublist [CHR 0xE9, CHR 0x63] ''h''" "\<not> sublist [CHR 0xE9, CHR 0x63] ''root''"
    by (simp_all add: sublist_Cons_right)
  from filteredServers_trimmed_query[of latin1_isWhiteSpace latin1_toLowerCase "[CHR 0x20, CHR 0xA0]" "[?a, ?b]"]
    k h1
  have c1: "filteredServers latin1_toLowerCase latin1_isWhiteSpace [?a, ?b] [CHR 0x20, CHR 0xA0] = [?a, ?b]"
    by blast
  from filteredServers_trimmed_query[of latin1_isWhiteSpace latin1_toLowerCase "'' wE ''" "[?a, ?b]"]
    k h2
  have "filteredServers latin1_toLowerCase latin1_isWhiteSpace [?a, ?b] '' wE '' =
          filter (\<lambda>s. sublist (trim latin1_isWhiteSpace (latin1_toLowerCase '' wE '')) (latin1_toLowerCase (summary_name s))
                    \<or> sublist (trim latin1_isWhiteSpace (latin1_toLowerCase '' wE '')) (latin1_toLowerCase (summary_host s))
                    \<or> sublist (trim latin1_isWhiteSpace (latin1_toLowerCase '' wE '')) (latin1_toLowerCase (summary_username s)))
            [?a, ?b]"
    by blast
  then have c2: "filteredServers latin1_toLowerCase latin1_isWhiteSpace [?a, ?b] '' wE '' = [?a]"
    by (simp add: t2 n m)
  have t3': "trim latin1_isWhiteSpace (latin1_toLowerCase [CHR 0xC9, CHR 0x43]) \<noteq> []"
    by (simp add: t3)
  from filteredServers_trimmed_query[of latin1_isWhiteSpace latin1_toLowerCase "[CHR 0xC9, CHR 0x43]" "[?b, ?e]"]
    t3'
  have "filteredServers latin1_toLowerCase latin1_isWhiteSpace [?b, ?e] [CHR 0xC9, CHR 0x43] =
          filter (\<lambda>s. sublist (trim latin1_isWhiteSpace (latin1_toLowerCase [CHR 0xC9, CHR 0x43])) (latin1_toLowerCase (summary_name s))
                    \<or> sublist (trim latin1_isWhiteSpace (latin1_toLowerCase [CHR 0xC9, CHR 0x43])) (latin1_toLowerCase (summary_host s))
                    \<or> sublist (trim latin1_isWhiteSpace (latin1_toLowerCase [CHR 0xC9, CHR 0x43])) (latin1_toLowerCase (summary_username s)))
            [?b, ?e]"
    by blast
  then have c3: "filteredServers latin1_toLowerCase latin1_isWhiteSpace [?b, ?e] [CHR 0xC9, CHR 0x43] = [?e]"
    by (simp add: t3 n m)
  have t2': "trim latin1_isWhiteSpace (latin1_toLowerCase '' wE '') \<noteq> []"
    by (simp add: t2)
  from k h1 t1 c1 h2 t2' c2 c3 show ?thesis by (intro conjI)
qed

text \<open>
  The query is trimmed before it is searched for: the query " a" (with a leading space)
  is not white space only and keeps a server named "a", although the lower-cased query
  itself occurs in none of the server's lower-cased fields.
\<close>

theorem filteredServers_untrimmed_counterexample:
  "\<not> whitespace_only latin1_isWhiteSpace '' a''
   \<and> \<lparr>summary_id = ''1'', summary_name = ''a'', summary_host = ''h'', summary_port = 22, summary_username = ''root''\<rparr>
        \<in> set (filteredServers latin1_toLowerCase latin1_isWhiteSpace [\<lparr>summary_id = ''1'', summary_name = ''a'', summary_host = ''h'', summary_port = 22, summary_username = ''root''\<rparr>] '' a'')
   \<and> \<not> includes_str (latin1_toLowerCase ''a'') (latin1_toLowerCase '' a'')
   \<and> \<not> includes_str (latin1_toLowerCase ''h'') (latin1_toLowerCase '' a'')
   \<and> \<not> includes_str (latin1_toLowerCase ''root'') (latin1_toLowerCase '' a'')
   \<and> \<not> sublist (latin1_toLowerCase '' a'') (latin1_toLowerCase ''a'')
   \<and> \<not> sublist (latin1_toLowerCase '' a'') (latin1_toLowerCase ''h'')
   \<and> \<not> sublist (latin1_toLowerCase '' a'') (latin1_toLowerCase ''root'')"
  by (simp add: whitespace_only_def latin1_isWhiteSpace_def filteredServers_def trim_def
        latin1_toLowerCase_def latin1_lower_char_def latin1_upper_def latin1_lower_def
        sublist_Cons_right)

subsection \<open>Terminal resize\<close>

lemma invoked_fit: "invoked (fit d c) = invoked c"
  by (simp add: fit_def split: option.splits)

lemma fit_fields:
  "fitAddon (fit d c) = fitAddon c" "sessionId (fit d c) = sessionId c"
  "terminalRef (fit d c) = terminalRef c" "lastCols (fit d c) = lastCols c"
  "lastRows (fit d c) = lastRows c" "status (fit d c) = status c"
  "(terminal (fit d c) = None) = (terminal c = None)"
  by (simp_all add: fit_def split: option.splits)

lemma terminal_fit:
  "terminal c = Some t \<Longrightarrow> terminal (fit d c) = Some \<lparr>cols = fst d, rows = snd d\<rparr>"
  by (simp add: fit_def)

lemma onResize_disabled: "\<not> resize_enabled r c \<Longrightarrow> onResize r d c = c"
  by (auto simp: resize_enabled_def onResize_def)

lemma onResize_same:
  assumes "resize_enabled r c" "fst d = lastCols c" "snd d = lastRows c"
  shows "onResize r d c = fit d c"
proof -
  from assms(1) obtain t sid where t: "terminal c = Some t" and sid: "sessionId c = Some sid"
    by (auto simp: resize_enabled_def truthy_def split: option.splits)
  from assms t sid show ?thesis
    by (simp add: onResize_def resize_enabled_def Let_def terminal_fit fit_fields)
qed

lemma onResize_changed:
  assumes "resize_enabled r c" "fst d \<noteq> lastCols c \<or> snd d \<noteq> lastRows c"
  shows "\<exists>sid. sessionId c = Some sid \<and>
           onResize r d c = (fit d c)\<lparr>lastCols := fst d, lastRows := snd d,
                               invoked := invoked c @ [ssh_resize_cmd sid (fst d) (snd d)]\<rparr>"
proof -
  from assms(1) obtain t sid where t: "terminal c = Some t" and sid: "sessionId c = Some sid"
    by (auto simp: resize_enabled_def truthy_def split: option.splits)
  from assms t sid show ?thesis
    by (simp add: onResize_def resize_enabled_def Let_def terminal_fit fit_fields invoked_fit)
qed

lemma onResize_invoked:
  "invoked (onResize r d c) =
     (if resize_enabled r c \<and> (fst d \<noteq> lastCols c \<or> snd d \<noteq> lastRows c)
      then invoked c @ [ssh_resize_cmd (the (sessionId c)) (fst d) (snd d)]
      else invoked c)"
proof (cases "resize_enabled r c")
  case False
  then show ?thesis by (simp add: onResize_disabled)
next
  case True
  show ?thesis
  proof (cases "fst d \<noteq> lastCols c \<or> snd d \<noteq> lastRows c")
    case True
    from onResize_changed[OF \<open>resize_enabled r c\<close> True] True \<open>resize_enabled r c\<close>
    show ?thesis by auto
  next
    case False
    with onResize_same[OF True] True show ?thesis by (simp add: invoked_fit)
  qed
qed

lemma onResize_last:
  "resize_enabled r c \<Longrightarrow> lastCols (onResize r d c) = fst d \<and> lastRows (onResize r d c) = snd d"
proof (cases "fst d \<noteq> lastCols c \<or> snd d \<noteq> lastRows c")
  case True
  assume e: "resize_enabled r c"
  from onResize_changed[OF e True] show ?thesis by auto
next
  case False
  assume e: "resize_enabled r c"
  with onResize_same[OF e] False show ?thesis by (simp add: fit_fields)
qed

lemma resize_requests_append: "resize_requests (xs @ ys) = resize_requests xs + resize_requests ys"
  by (induction xs rule: resize_requests.induct) simp_all

lemma sent_dims_append: "sent_dims (xs @ ys) = sent_dims xs @ sent_dims ys"
  by (induction xs rule: sent_dims.induct) simp_all

lemma onResize_twice:
  "resize_requests (invoked (onResize r2 d (onResize r1 d c))) \<le> Suc (resize_requests (invoked c))"
proof (cases "resize_enabled r1 c")
  case False
  then show ?thesis by (simp add: onResize_disabled onResize_invoked resize_requests_append)
next
  case True
  from onResize_last[OF True, of d]
  have "invoked (onResize r2 d (onResize r1 d c)) = invoked (onResize r1 d c)"
    by (simp add: onResize_invoked[of r2])
  then show ?thesis by (simp add: onResize_invoked[of r1] resize_requests_append)
qed

lemma onResize_inv: "last_sent_inv c \<Longrightarrow> last_sent_inv (onResize r d c)"
proof (cases "resize_enabled r c")
  case False
  assume "last_sent_inv c"
  with False show ?thesis by (simp add: onResize_disabled)
next
  case True
  assume i: "last_sent_inv c"
  show ?thesis
  proof (cases "fst d \<noteq> lastCols c \<or> snd d \<noteq> lastRows c")
    case c: True
    then have ne: "(lastCols c, lastRows c) \<noteq> (fst d, snd d)" by auto
    from i ne show ?thesis
      unfolding last_sent_inv_def
      using onResize_last[OF True, of d] c True
      by (simp add: onResize_invoked sent_dims_append distinct_adj_append_iff)
  next
    case False
    with onResize_same[OF True, of d] i show ?thesis
      by (simp add: last_sent_inv_def invoked_fit fit_fields)
  qed
qed

lemma onActive_inv: "last_sent_inv c \<Longrightarrow> last_sent_inv (onActive a d c)"
  by (simp add: onActive_def last_sent_inv_def invoked_fit fit_fields)

lemma handle_inv: "last_sent_inv c \<Longrightarrow> last_sent_inv (handle c e)"
  by (cases e) (simp_all add: onResize_inv onActive_inv)

lemma foldl_handle_inv: "last_sent_inv c \<Longrightarrow> last_sent_inv (foldl handle c es)"
  by (induction es arbitrary: c) (simp_all add: handle_inv)

lemma connect_ok_inv:
  "invoked c = [] \<Longrightarrow> last_sent_inv (connect_ok srv sid dims c)"
  by (simp add: connect_ok_def last_sent_inv_def)

text \<open>
  C6. Two resize callbacks in a row with the same dimensions send at most one size-change
  request. A callback whose dimensions equal the stored last dimensions sends nothing;
  when a callback does send, the dimensions differ from the stored ones and exactly one
  request carrying them is sent. From a successful connect on, the stored dimensions are
  the last ones sent, and no two dimensions sent in a row are equal.
\<close>

theorem resize_sent_only_on_change:
  "resize_requests (invoked (onResize r2 d (onResize r1 d c))) \<le> Suc (resize_requests (invoked c))
   \<and> (fst d = lastCols c \<and> snd d = lastRows c \<longrightarrow> invoked (onResize r d c) = invoked c)
   \<and> (invoked (onResize r d c) \<noteq> invoked c \<longrightarrow>
        (fst d \<noteq> lastCols c \<or> snd d \<noteq> lastRows c) \<and>
        (\<exists>sid. sessionId c = Some sid \<and>
               invoked (onResize r d c) = invoked c @ [ssh_resize_cmd sid (fst d) (snd d)]))
   \<and> (invoked c0 = [] \<longrightarrow>
        distinct_adj (sent_dims (invoked (foldl handle (connect_ok srv sid0 dims c0) es))) \<and>
        last (sent_dims (invoked (foldl handle (connect_ok srv sid0 dims c0) es)))
          = (lastCols (foldl handle (connect_ok srv sid0 dims c0) es),
             lastRows (foldl handle (connect_ok srv sid0 dims c0) es)))"
proof -
  have 1: "resize_requests (invoked (onResize r2 d (onResize r1 d c))) \<le> Suc (resize_requests (invoked c))"
    by (rule onResize_twice)
  have 2: "fst d = lastCols c \<and> snd d = lastRows c \<longrightarrow> invoked (onResize r d c) = invoked c"
    by (simp add: onResize_invoked)
  have 3: "invoked (onResize r d c) \<noteq> invoked c \<longrightarrow>
        (fst d \<noteq> lastCols c \<or> snd d \<noteq> lastRows c) \<and>
        (\<exists>sid. sessionId c = Some sid \<and>
               invoked (onResize r d c) = invoked c @ [ssh_resize_cmd sid (fst d) (snd d)])"
  proof
    assume a: "invoked (onResize r d c) \<noteq> invoked c"
    then have e: "resize_enabled r c" and ch: "fst d \<noteq> lastCols c \<or> snd d \<noteq> lastRows c"
      by (auto simp: onResize_invoked split: if_splits)
    from onResize_changed[OF e ch] obtain sid where
      "sessionId c = Some sid"
      "onResize r d c = (fit d c)\<lparr>lastCols := fst d, lastRows := snd d,
                               invoked := invoked c @ [ssh_resize_cmd sid (fst d) (snd d)]\<rparr>"
      by blast
    then have "sessionId c = Some sid \<and>
               invoked (onResize r d c) = invoked c @ [ssh_resize_cmd sid (fst d) (snd d)]"
      by simp
    with ch show "(fst d \<noteq> lastCols c \<or> snd d \<noteq> lastRows c) \<and>
        (\<exists>sid. sessionId c = Some sid \<and>
               invoked (onResize r d c) = invoked c @ [ssh_resize_cmd sid (fst d) (snd d)])"
      by blast
  qed
  have 4: "invoked c0 = [] \<longrightarrow>
        distinct_adj (sent_dims (invoked (foldl handle (connect_ok srv sid0 dims c0) es))) \<and>
        last (sent_dims (invoked (foldl handle (connect_ok srv sid0 dims c0) es)))
          = (lastCols (foldl handle (connect_ok srv sid0 dims c0) es),
             lastRows (foldl handle (connect_ok srv sid0 dims c0) es))"
  proof
    assume "invoked c0 = []"
    then have "last_sent_inv (foldl handle (connect_ok srv sid0 dims c0) es)"
      by (intro foldl_handle_inv connect_ok_inv)
    then show "distinct_adj (sent_dims (invoked (foldl handle (connect_ok srv sid0 dims c0) es))) \<and>
        last (sent_dims (invoked (foldl handle (connect_ok srv sid0 dims c0) es)))
          = (lastCols (foldl handle (connect_ok srv sid0 dims c0) es),
             lastRows (foldl handle (connect_ok srv sid0 dims c0) es))"
      by (simp add: last_sent_inv_def)
  qed
  from 1 2 3 4 show ?thesis by blast
qed

lemma connected_example:
  "connect_ok ''srv-1'' ''s1'' (80, 24) initial_component =
     \<lparr>terminal = Some \<lparr>cols = 80, rows = 24\<rparr>, fitAddon = True, sessionId = Some ''s1'',
      unlistenData = True, resizeObserver = True, terminalRef = True, lastCols = 80, lastRows = 24,
      status = connected, invoked = [ssh_connect_cmd ''srv-1'' 80 24]\<rparr>"
  by (simp add: connect_ok_def initial_component_def)

theorem resize_sent_only_on_change_witness:
  "invoked initial_component = []
   \<and> fst (80::nat, 24::nat) = lastCols (connect_ok ''srv-1'' ''s1'' (80, 24) initial_component)
   \<and> snd (80::nat, 24::nat) = lastRows (connect_ok ''srv-1'' ''s1'' (80, 24) initial_component)
   \<and> invoked (onResize \<lparr>width = 800, height = 600\<rparr> (80, 24) (connect_ok ''srv-1'' ''s1'' (80, 24) initial_component))
       = [ssh_connect_cmd ''srv-1'' 80 24]
   \<and> invoked (onResize \<lparr>width = 900, height = 600\<rparr> (100, 24) (connect_ok ''srv-1'' ''s1'' (80, 24) initial_component))
       = [ssh_connect_cmd ''srv-1'' 80 24, ssh_resize_cmd ''s1'' 100 24]
   \<and> distinct_adj (sent_dims (invoked (foldl handle (connect_ok ''srv-1'' ''s1'' (80, 24) initial_component)
        [Resize \<lparr>width = 900, height = 600\<rparr> (100, 24), Resize \<lparr>width = 900, height = 600\<rparr> (100, 24)])))"
proof -
  let ?c = "connect_ok ''srv-1'' ''s1'' (80, 24) initial_component"
  have h0: "invoked initial_component = []"
    by (simp add: initial_component_def)
  have h1: "fst (80::nat, 24::nat) = lastCols ?c \<and> snd (80::nat, 24::nat) = lastRows ?c"
    by (simp add: connected_example)
  have i: "invoked ?c = [ssh_connect_cmd ''srv-1'' 80 24]"
    by (simp add: connected_example)
  have h2: "invoked (onResize \<lparr>width = 900, height = 600\<rparr> (100, 24) ?c) \<noteq> invoked ?c"
    by (simp add: connected_example onResize_def fit_def truthy_def Let_def)
  have s: "sessionId ?c = Some ''s1''"
    by (simp add: connected_example)
  from resize_sent_only_on_change[of "\<lparr>width = 800, height = 600\<rparr>" "(80, 24)" "\<lparr>width = 800, height = 600\<rparr>" ?c
        "\<lparr>width = 800, height = 600\<rparr>" initial_component "''srv-1''" "''s1''" "(80, 24)"
        "[Resize \<lparr>width = 900, height = 600\<rparr> (100, 24), Resize \<lparr>width = 900, height = 600\<rparr> (100, 24)]"] h0 h1 i
  have a: "invoked (onResize \<lparr>width = 800, height = 600\<rparr> (80, 24) ?c) = [ssh_connect_cmd ''srv-1'' 80 24]"
    and b: "distinct_adj (sent_dims (invoked (foldl handle ?c
        [Resize \<lparr>width = 900, height = 600\<rparr> (100, 24), Resize \<lparr>width = 900, height = 600\<rparr> (100, 24)])))"
    by simp_all
  from resize_sent_only_on_change[of "\<lparr>width = 900, height = 600\<rparr>" "(100, 24)" "\<lparr>width = 900, height = 600\<rparr>" ?c
        "\<lparr>width = 900, height = 600\<rparr>" initial_component "''srv-1''" "''s1''" "(80, 24)" "[]"] h2 s i
  have c: "invoked (onResize \<lparr>width = 900, height = 600\<rparr> (100, 24) ?c)
       = [ssh_connect_cmd ''srv-1'' 80 24, ssh_resize_cmd ''s1'' 100 24]"
    by simp
  from h0 h1 a b c show ?thesis by blast
qed

subsection \<open>Disconnecting\<close>

lemma release_fields:
  "unlistenData (release c) = False" "resizeObserver (release c) = False"
  "terminal (release c) = None" "sessionId (release c) = sessionId c"
  "invoked (release c) = invoked c"
  by (simp_all add: release_def Let_def)

lemma release_idem: "release (release c) = release c"
  by (simp add: release_def Let_def)

lemma disconnect_no_session:
  "\<not> truthy (sessionId c) \<Longrightarrow> disconnect backend (c, w) = (Completed, release c, w)"
  by (simp add: disconnect_def truthy_def Let_def split: option.splits)

lemma disconnect_session:
  assumes "sessionId c = Some sid" "sid \<noteq> []" "backend sid w = (None, w')"
  shows "disconnect backend (c, w) =
           (Completed, release (c\<lparr>invoked := invoked c @ [ssh_disconnect_cmd sid], sessionId := None\<rparr>), w')"
  using assms by (simp add: disconnect_def Let_def)

lemma disconnect_completed_closed:
  assumes "disconnect backend (c, w) = (Completed, c', w')"
  shows "sessionId c' = None \<or> sessionId c' = Some []"
    and "unlistenData c' = False" and "resizeObserver c' = False" and "terminal c' = None"
  using assms
  by (auto simp: disconnect_def Let_def release_fields split: option.splits if_splits prod.splits)

lemma disconnect_again:
  assumes "disconnect backend (c, w) = (Completed, c', w')"
  shows "disconnect backend (c', w') = (Completed, c', w')"
proof -
  from disconnect_completed_closed(1)[OF assms] have n: "\<not> truthy (sessionId c')"
    by (auto simp: truthy_def)
  from assms have "release c' = c'"
    by (auto simp: disconnect_def Let_def release_idem split: option.splits if_splits prod.splits)
  with disconnect_no_session[OF n, of backend w'] show ?thesis by simp
qed

lemma ssh_disconnect_ok: "fst (ssh_disconnect sid reg) = None"
  by (simp add: ssh_disconnect_def split: option.splits)

lemma ssh_disconnect_unknown: "sessions reg sid = None \<Longrightarrow> ssh_disconnect sid reg = (None, reg)"
  by (simp add: ssh_disconnect_def)

lemma ssh_disconnect_removed: "sessions (snd (ssh_disconnect sid reg)) sid = None"
  by (simp add: ssh_disconnect_def split: option.splits)

lemma ssh_disconnect_stopped:
  "registry_ok reg \<Longrightarrow>
     sid \<notin> read_loops (snd (ssh_disconnect sid reg)) \<and> sid \<notin> connections (snd (ssh_disconnect sid reg))"
  by (auto simp: ssh_disconnect_def registry_ok_def split: option.splits)

lemma ssh_disconnect_others:
  "sid' \<noteq> sid \<Longrightarrow>
     sessions (snd (ssh_disconnect sid reg)) sid' = sessions reg sid'
     \<and> (sid' \<in> read_loops (snd (ssh_disconnect sid reg)) \<longleftrightarrow> sid' \<in> read_loops reg)
     \<and> (sid' \<in> connections (snd (ssh_disconnect sid reg)) \<longleftrightarrow> sid' \<in> connections reg)"
  by (auto simp: ssh_disconnect_def split: option.splits)

lemma ssh_disconnect_registry_ok: "registry_ok reg \<Longrightarrow> registry_ok (snd (ssh_disconnect sid reg))"
  by (auto simp: ssh_disconnect_def registry_ok_def split: option.splits)

lemma registry_ok_empty: "registry_ok empty_registry"
  by (simp add: registry_ok_def empty_registry_def)

lemma registry_ok_open_session: "registry_ok reg \<Longrightarrow> registry_ok (open_session sid s reg)"
  by (auto simp: registry_ok_def open_session_def)

lemma ssh_disconnect_idem:
  "ssh_disconnect sid (snd (ssh_disconnect sid reg)) = (None, snd (ssh_disconnect sid reg))"
  by (rule ssh_disconnect_unknown) (rule ssh_disconnect_removed)

lemma disconnect_never_raises: "fst (disconnect ssh_disconnect (c, reg)) = Completed"
proof (cases "truthy (sessionId c)")
  case False
  then show ?thesis by (simp add: disconnect_no_session)
next
  case True
  then obtain sid where s: "sessionId c = Some sid" "sid \<noteq> []"
    by (auto simp: truthy_def split: option.splits)
  obtain reg' where "ssh_disconnect sid reg = (None, reg')"
    using ssh_disconnect_ok[of sid reg] by (cases "ssh_disconnect sid reg") auto
  from disconnect_session[of c sid ssh_disconnect reg reg'] s this show ?thesis by simp
qed

text \<open>
  C7. Disconnecting never reports an error, whatever the session id; for an id the
  registry does not hold it changes nothing; afterwards the registry holds no session
  under the id and, in a registry whose connections and read loops belong to its
  sessions, the session's connection is closed and its read loop stopped; a second
  disconnect of the same id changes nothing. In the terminal component, \<^verbatim>\<open>disconnect\<close>
  with this backend never raises; without a session id it sends no command and leaves
  the backend alone whatever the backend is; and after a completed \<^verbatim>\<open>disconnect\<close> the
  component holds no session, listener, observer or terminal, and a further
  \<^verbatim>\<open>disconnect\<close> changes nothing.
\<close>

theorem disconnect_idempotent:
  "fst (ssh_disconnect sid reg) = None
   \<and> (sessions reg sid = None \<longrightarrow> ssh_disconnect sid reg = (None, reg))
   \<and> sessions (snd (ssh_disconnect sid reg)) sid = None
   \<and> (registry_ok reg \<longrightarrow>
        sid \<notin> read_loops (snd (ssh_disconnect sid reg)) \<and>
        sid \<notin> connections (snd (ssh_disconnect sid reg)))
   \<and> ssh_disconnect sid (snd (ssh_disconnect sid reg)) = (None, snd (ssh_disconnect sid reg))
   \<and> fst (disconnect ssh_disconnect (c, reg)) = Completed
   \<and> (\<not> truthy (sessionId c) \<longrightarrow>
        fst (disconnect backend (c, w)) = Completed \<and>
        snd (snd (disconnect backend (c, w))) = w \<and>
        invoked (fst (snd (disconnect backend (c, w)))) = invoked c)
   \<and> (disconnect backend (c, w) = (Completed, c', w') \<longrightarrow>
        \<not> truthy (sessionId c') \<and> \<not> unlistenData c' \<and> \<not> resizeObserver c' \<and> terminal c' = None \<and>
        disconnect backend (c', w') = (Completed, c', w'))"
proof -
  have 7: "\<not> truthy (sessionId c) \<longrightarrow>
        fst (disconnect backend (c, w)) = Completed \<and>
        snd (snd (disconnect backend (c, w))) = w \<and>
        invoked (fst (snd (disconnect backend (c, w)))) = invoked c"
    by (simp add: disconnect_no_session release_fields)
  have 8: "disconnect backend (c, w) = (Completed, c', w') \<longrightarrow>
        \<not> truthy (sessionId c') \<and> \<not> unlistenData c' \<and> \<not> resizeObserver c' \<and> terminal c' = None \<and>
        disconnect backend (c', w') = (Completed, c', w')"
  proof
    assume a: "disconnect backend (c, w) = (Completed, c', w')"
    from disconnect_completed_closed(1)[OF a] have "\<not> truthy (sessionId c')"
      by (auto simp: truthy_def)
    with disconnect_completed_closed(2,3,4)[OF a] disconnect_again[OF a]
    show "\<not> truthy (sessionId c') \<and> \<not> unlistenData c' \<and> \<not> resizeObserver c' \<and> terminal c' = None \<and>
        disconnect backend (c', w') = (Completed, c', w')"
      by simp
  qed
  from ssh_disconnect_ok[of sid reg] ssh_disconnect_unknown[of reg sid]
    ssh_disconnect_removed[of sid reg] ssh_disconnect_stopped[of reg sid]
    ssh_disconnect_idem[of sid reg] disconnect_never_raises[of c reg] 7 8
  show ?thesis by blast
qed

theorem disconnect_idempotent_witness:
  "sessions \<lparr>sessions = [''s1'' \<mapsto> \<lparr>owner_profile = ''p1'', session_kind = Shell, session_status = Connected\<rparr>],
             connections = {''s1''}, read_loops = {''s1''}\<rparr> ''s2'' = None
   \<and> registry_ok \<lparr>sessions = [''s1'' \<mapsto> \<lparr>owner_profile = ''p1'', session_kind = Shell, session_status = Connected\<rparr>],
             connections = {''s1''}, read_loops = {''s1''}\<rparr>
   \<and> ssh_disconnect ''s2'' \<lparr>sessions = [''s1'' \<mapsto> \<lparr>owner_profile = ''p1'', session_kind = Shell, session_status = Connected\<rparr>],
             connections = {''s1''}, read_loops = {''s1''}\<rparr>
       = (None, \<lparr>sessions = [''s1'' \<mapsto> \<lparr>owner_profile = ''p1'', session_kind = Shell, session_status = Connected\<rparr>],
             connections = {''s1''}, read_loops = {''s1''}\<rparr>)
   \<and> ''s1'' \<notin> read_loops (snd (ssh_disconnect ''s1'' \<lparr>sessions = [''s1'' \<mapsto> \<lparr>owner_profile = ''p1'', session_kind = Shell, session_status = Connected\<rparr>],
             connections = {''s1''}, read_loops = {''s1''}\<rparr>))
   \<and> \<not> truthy (sessionId initial_component)
   \<and> fst (disconnect ssh_disconnect (initial_component,
        \<lparr>sessions = [''s1'' \<mapsto> \<lparr>owner_profile = ''p1'', session_kind = Shell, session_status = Connected\<rparr>],
             connections = {''s1''}, read_loops = {''s1''}\<rparr>)) = Completed
   \<and> disconnect ssh_disconnect (connect_ok ''p1'' ''s1'' (80, 24) initial_component,
        \<lparr>sessions = [''s1'' \<mapsto> \<lparr>owner_profile = ''p1'', session_kind = Shell, session_status = Connected\<rparr>],
             connections = {''s1''}, read_loops = {''s1''}\<rparr>)
       = (Completed,
          \<lparr>terminal = None, fitAddon = True, sessionId = None, unlistenData = False,
            resizeObserver = False, terminalRef = True, lastCols = 80, lastRows = 24, status = connected,
            invoked = [ssh_connect_cmd ''p1'' 80 24, ssh_disconnect_cmd ''s1'']\<rparr>,
          \<lparr>sessions = Map.empty, connections = {}, read_loops = {}\<rparr>)
   \<and> disconnect ssh_disconnect
         (\<lparr>terminal = None, fitAddon = True, sessionId = None, unlistenData = False,
            resizeObserver = False, terminalRef = True, lastCols = 80, lastRows = 24, status = connected,
            invoked = [ssh_connect_cmd ''p1'' 80 24, ssh_disconnect_cmd ''s1'']\<rparr>,
          \<lparr>sessions = Map.empty, connections = {}, read_loops = {}\<rparr>)
       = (Completed,
          \<lparr>terminal = None, fitAddon = True, sessionId = None, unlistenData = False,
            resizeObserver = False, terminalRef = True, lastCols = 80, lastRows = 24, status = connected,
            invoked = [ssh_connect_cmd ''p1'' 80 24, ssh_disconnect_cmd ''s1'']\<rparr>,
          \<lparr>sessions = Map.empty, connections = {}, read_loops = {}\<rparr>)"
proof -
  let ?reg = "\<lparr>sessions = [''s1'' \<mapsto> \<lparr>owner_profile = ''p1'', session_kind = Shell, session_status = Connected\<rparr>],
             connections = {''s1''}, read_loops = {''s1''}\<rparr>"
  let ?c = "connect_ok ''p1'' ''s1'' (80, 24) initial_component"
  let ?c' = "\<lparr>terminal = None, fitAddon = True, sessionId = None, unlistenData = False,
            resizeObserver = False, terminalRef = True, lastCols = 80, lastRows = 24, status = connected,
            invoked = [ssh_connect_cmd ''p1'' 80 24, ssh_disconnect_cmd ''s1'']\<rparr>"
  let ?reg' = "\<lparr>sessions = Map.empty, connections = {}, read_loops = {}\<rparr> :: registry"
  have h1: "sessions ?reg ''s2'' = None" by simp
  have h2: "registry_ok ?reg" by (simp add: registry_ok_def)
  have h3: "\<not> truthy (sessionId initial_component)"
    by (simp add: initial_component_def truthy_def)
  have h4: "disconnect ssh_disconnect (?c, ?reg) = (Completed, ?c', ?reg')"
    by (simp add: disconnect_def ssh_disconnect_def connect_ok_def initial_component_def release_def Let_def)
  from disconnect_idempotent[of "''s2''" ?reg initial_component ssh_disconnect ?reg] h1 h3
  have a: "ssh_disconnect ''s2'' ?reg = (None, ?reg)"
    and b: "fst (disconnect ssh_disconnect (initial_component, ?reg)) = Completed"
    by blast+
  from disconnect_idempotent[of "''s1''" ?reg ?c ssh_disconnect ?reg ?c' ?reg'] h2 h4
  have c: "''s1'' \<notin> read_loops (snd (ssh_disconnect ''s1'' ?reg))"
    and d: "disconnect ssh_disconnect (?c', ?reg') = (Completed, ?c', ?reg')"
    by blast+
  from h1 h2 h3 h4 a b c d show ?thesis by blast
qed

subsection \<open>Credential store\<close>

lemma max_id_ge: "p \<in> set st \<Longrightarrow> profile_id p = Some i \<Longrightarrow> i \<le> max_id st"
  by (induction st) (auto simp: max_def)

lemma fresh_id_new: "\<not> list_ex (has_id (fresh_id st)) st"
proof
  assume "list_ex (has_id (fresh_id st)) st"
  then obtain p where "p \<in> set st" "profile_id p = Some (fresh_id st)"
    by (auto simp: list_ex_iff has_id_def)
  from max_id_ge[OF this] show False by (simp add: fresh_id_def)
qed

lemma find_append_new:
  "\<not> list_ex P xs \<Longrightarrow> P y \<Longrightarrow> List.find P (xs @ [y]) = Some y"
  by (induction xs) auto

lemma find_replace:
  "list_ex P xs \<Longrightarrow> P y \<Longrightarrow> List.find P (map (\<lambda>q. if P q then y else q) xs) = Some y"
  by (induction xs) auto

lemma get_after_upsert: "profile_id p = Some i \<Longrightarrow> get_server i (upsert i p st) = Inr p"
proof -
  assume "profile_id p = Some i"
  then have h: "has_id i p" by (simp add: has_id_def)
  show ?thesis
  proof (cases "list_ex (has_id i) st")
    case True
    with find_replace[OF True h] show ?thesis by (simp add: get_server_def upsert_def)
  next
    case False
    with find_append_new[OF False h] show ?thesis by (simp add: get_server_def upsert_def)
  qed
qed

lemma get_after_insert:
  "get_server (fresh_id st) (st @ [p\<lparr>profile_id := Some (fresh_id st)\<rparr>])
     = Inr (p\<lparr>profile_id := Some (fresh_id st)\<rparr>)"
proof -
  have "has_id (fresh_id st) (p\<lparr>profile_id := Some (fresh_id st)\<rparr>)" by (simp add: has_id_def)
  from find_append_new[OF fresh_id_new this] show ?thesis by (simp add: get_server_def)
qed

lemma save_then_get:
  assumes "valid_profile p"
  shows "\<exists>i st'. save_server p st = Inr (i, st') \<and>
         get_server i st' = Inr (p\<lparr>profile_id := Some i\<rparr>) \<and>
         (profile_id p = None \<longrightarrow> \<not> list_ex (has_id i) st) \<and>
         (\<forall>j. profile_id p = Some j \<longrightarrow> i = j \<and> get_server i st' = Inr p)"
proof (cases "profile_id p")
  case None
  let ?i = "fresh_id st"
  let ?st = "st @ [p\<lparr>profile_id := Some ?i\<rparr>]"
  from assms None have 1: "save_server p st = Inr (?i, ?st)"
    by (simp add: save_server_def Let_def)
  have 2: "get_server ?i ?st = Inr (p\<lparr>profile_id := Some ?i\<rparr>)"
    by (rule get_after_insert)
  have 3: "profile_id p = None \<longrightarrow> \<not> list_ex (has_id ?i) st"
    by (simp add: fresh_id_new)
  from None have 4: "\<forall>j. profile_id p = Some j \<longrightarrow> ?i = j \<and> get_server ?i ?st = Inr p"
    by simp
  from 1 2 3 4 have "save_server p st = Inr (?i, ?st) \<and>
         get_server ?i ?st = Inr (p\<lparr>profile_id := Some ?i\<rparr>) \<and>
         (profile_id p = None \<longrightarrow> \<not> list_ex (has_id ?i) st) \<and>
         (\<forall>j. profile_id p = Some j \<longrightarrow> ?i = j \<and> get_server ?i ?st = Inr p)"
    by (intro conjI)
  then show ?thesis by (intro exI)
next
  case (Some k)
  let ?st = "upsert k p st"
  from Some have e: "p\<lparr>profile_id := Some k\<rparr> = p" by simp
  from assms Some have 1: "save_server p st = Inr (k, ?st)"
    by (simp add: save_server_def)
  have g: "get_server k ?st = Inr p"
    by (rule get_after_upsert[OF Some])
  then have 2: "get_server k ?st = Inr (p\<lparr>profile_id := Some k\<rparr>)"
    by (simp only: e)
  from Some have 3: "profile_id p = None \<longrightarrow> \<not> list_ex (has_id k) st"
    by simp
  from Some g have 4: "\<forall>j. profile_id p = Some j \<longrightarrow> k = j \<and> get_server k ?st = Inr p"
    by simp
  from 1 2 3 4 have "save_server p st = Inr (k, ?st) \<and>
         get_server k ?st = Inr (p\<lparr>profile_id := Some k\<rparr>) \<and>
         (profile_id p = None \<longrightarrow> \<not> list_ex (has_id k) st) \<and>
         (\<forall>j. profile_id p = Some j \<longrightarrow> k = j \<and> get_server k ?st = Inr p)"
    by (intro conjI)
  then show ?thesis by (intro exI)
qed

lemma find_filter_none: "List.find P (filter (\<lambda>q. \<not> P q) xs) = None"
  by (induction xs) auto

lemma delete_then_get:
  assumes "get_server i st = Inr q"
  shows "\<exists>st'. delete_server i st = Inr st' \<and> get_server i st' = Inl NotFoundError"
proof -
  from assms have "List.find (has_id i) st \<noteq> None"
    by (auto simp: get_server_def split: option.splits)
  then have "list_ex (has_id i) st"
    by (auto simp: find_None_iff list_ex_iff)
  then show ?thesis
    by (simp add: delete_server_def get_server_def find_filter_none)
qed

lemma delete_absent:
  assumes "get_server i st = Inl e"
  shows "delete_server i st = Inl NotFoundError"
proof -
  from assms have "List.find (has_id i) st = None"
    by (simp add: get_server_def split: option.splits)
  then have "\<not> list_ex (has_id i) st"
    by (simp add: find_None_iff list_ex_iff)
  then show ?thesis by (simp add: delete_server_def)
qed

lemma store_ok_insert:
  assumes "store_ok st"
  shows "store_ok (st @ [p\<lparr>profile_id := Some (fresh_id st)\<rparr>])"
proof -
  from fresh_id_new[of st] have "Some (fresh_id st) \<notin> set (map profile_id st)"
    by (auto simp: list_ex_iff has_id_def)
  with assms show ?thesis by (simp add: store_ok_def)
qed

lemma map_id_replace:
  "profile_id p = Some i \<Longrightarrow>
     map profile_id (map (\<lambda>q. if has_id i q then p else q) st) = map profile_id st"
  by (induction st) (auto simp: has_id_def)

lemma store_ok_upsert:
  assumes "store_ok st" "profile_id p = Some i"
  shows "store_ok (upsert i p st)"
proof (cases "list_ex (has_id i) st")
  case True
  then have u: "upsert i p st = map (\<lambda>q. if has_id i q then p else q) st"
    by (simp add: upsert_def)
  have m: "map profile_id (upsert i p st) = map profile_id st"
    unfolding u by (rule map_id_replace[OF assms(2)])
  show ?thesis unfolding store_ok_def m using assms(1) by (simp add: store_ok_def)
next
  case False
  then have u: "upsert i p st = st @ [p]" by (simp add: upsert_def)
  from False have "Some i \<notin> set (map profile_id st)"
    by (auto simp: list_ex_iff has_id_def)
  with assms u show ?thesis by (simp add: store_ok_def)
qed

lemma store_ok_save:
  assumes "store_ok st" "save_server p st = Inr (i, st')"
  shows "store_ok st'"
proof (cases "profile_id p")
  case None
  with assms(2) have "st' = st @ [p\<lparr>profile_id := Some (fresh_id st)\<rparr>]"
    by (auto simp: save_server_def Let_def split: if_splits)
  with store_ok_insert[OF assms(1)] show ?thesis by simp
next
  case (Some j)
  with assms(2) have "st' = upsert j p st"
    by (auto simp: save_server_def split: if_splits)
  with store_ok_upsert[OF assms(1) Some] show ?thesis by simp
qed

lemma store_ok_delete:
  assumes "store_ok st" "delete_server i st = Inr st'"
  shows "store_ok st'"
proof -
  from assms(2) have e: "st' = filter (\<lambda>q. \<not> has_id i q) st"
    by (simp add: delete_server_def split: if_splits)
  from assms(1) have d: "distinct (map profile_id st')"
    unfolding e store_ok_def by (simp add: distinct_map_filter)
  from assms(1) have "None \<notin> profile_id ` set st"
    by (simp add: store_ok_def)
  then have "None \<notin> profile_id ` set st'"
    unfolding e by auto
  with d show ?thesis by (simp add: store_ok_def)
qed

text \<open>
  C5. Saving a valid profile succeeds and returns an id under which \<^verbatim>\<open>get_server\<close> then
  returns the saved profile, field for field, with that id (the profile's own id when it
  had one, a new id no stored profile has otherwise). Deleting an id that is present
  succeeds, and \<^verbatim>\<open>get_server\<close> of that id then fails with \<open>NotFoundError\<close>.
\<close>

theorem save_get_delete:
  "(valid_profile p \<longrightarrow>
      (\<exists>i st'. save_server p st = Inr (i, st') \<and>
         get_server i st' = Inr (p\<lparr>profile_id := Some i\<rparr>) \<and>
         (profile_id p = None \<longrightarrow> \<not> list_ex (has_id i) st) \<and>
         (\<forall>j. profile_id p = Some j \<longrightarrow> i = j \<and> get_server i st' = Inr p)))
   \<and> (get_server k st = Inr q \<longrightarrow>
      (\<exists>st'. delete_server k st = Inr st' \<and> get_server k st' = Inl NotFoundError))"
proof -
  have 1: "valid_profile p \<longrightarrow>
      (\<exists>i st'. save_server p st = Inr (i, st') \<and>
         get_server i st' = Inr (p\<lparr>profile_id := Some i\<rparr>) \<and>
         (profile_id p = None \<longrightarrow> \<not> list_ex (has_id i) st) \<and>
         (\<forall>j. profile_id p = Some j \<longrightarrow> i = j \<and> get_server i st' = Inr p))"
    by (rule impI) (rule save_then_get)
  have 2: "get_server k st = Inr q \<longrightarrow>
      (\<exists>st'. delete_server k st = Inr st' \<and> get_server k st' = Inl NotFoundError)"
    by (rule impI) (rule delete_then_get)
  from 1 2 show ?thesis by (rule conjI)
qed

lemma save_example:
  "save_server \<lparr>profile_id = None, profile_name = ''web'', profile_host = ''example.org'', profile_port = 22,
       profile_username = ''root'', profile_auth = Password ''secret'', profile_proxy = None, profile_notes = ''''\<rparr> []
   = Inr (1, [\<lparr>profile_id = Some 1, profile_name = ''web'', profile_host = ''example.org'', profile_port = 22,
       profile_username = ''root'', profile_auth = Password ''secret'', profile_proxy = None, profile_notes = ''''\<rparr>])"
  by (simp add: save_server_def valid_profile_def fresh_id_def)

theorem save_get_delete_witness:
  "valid_profile \<lparr>profile_id = None, profile_name = ''web'', profile_host = ''example.org'', profile_port = 22,
       profile_username = ''root'', profile_auth = Password ''secret'', profile_proxy = None, profile_notes = ''''\<rparr>
   \<and> (\<exists>i st'. save_server \<lparr>profile_id = None, profile_name = ''web'', profile_host = ''example.org'', profile_port = 22,
                   profile_username = ''root'', profile_auth = Password ''secret'', profile_proxy = None, profile_notes = ''''\<rparr> []
                 = Inr (i, st')
          \<and> get_server i st' = Inr \<lparr>profile_id = Some i, profile_name = ''web'', profile_host = ''example.org'', profile_port = 22,
                   profile_username = ''root'', profile_auth = Password ''secret'', profile_proxy = None, profile_notes = ''''\<rparr>)
   \<and> get_server 1 [\<lparr>profile_id = Some 1, profile_name = ''web'', profile_host = ''example.org'', profile_port = 22,
                   profile_username = ''root'', profile_auth = Password ''secret'', profile_proxy = None, profile_notes = ''''\<rparr>]
        = Inr \<lparr>profile_id = Some 1, profile_name = ''web'', profile_host = ''example.org'', profile_port = 22,
                   profile_username = ''root'', profile_auth = Password ''secret'', profile_proxy = None, profile_notes = ''''\<rparr>
   \<and> (\<exists>st'. delete_server 1 [\<lparr>profile_id = Some 1, profile_name = ''web'', profile_host = ''example.org'', profile_port = 22,
                   profile_username = ''root'', profile_auth = Password ''secret'', profile_proxy = None, profile_notes = ''''\<rparr>]
                = Inr st'
          \<and> get_server 1 st' = Inl NotFoundError)"
proof -
  let ?p = "\<lparr>profile_id = None, profile_name = ''web'', profile_host = ''example.org'', profile_port = 22,
       profile_username = ''root'', profile_auth = Password ''secret'', profile_proxy = None, profile_notes = ''''\<rparr>"
  let ?q = "\<lparr>profile_id = Some 1, profile_name = ''web'', profile_host = ''example.org'', profile_port = 22,
       profile_username = ''root'', profile_auth = Password ''secret'', profile_proxy = None, profile_notes = ''''\<rparr>"
  have h1: "valid_profile ?p"
    by (simp add: valid_profile_def)
  have h2: "get_server 1 [?q] = Inr ?q"
    by (simp add: get_server_def has_id_def)
  from save_get_delete[of ?p "[]"] h1
  have a: "\<exists>i st'. save_server ?p [] = Inr (i, st') \<and> get_server i st' = Inr (?p\<lparr>profile_id := Some i\<rparr>)"
    by blast
  from save_get_delete[of ?p "[?q]" 1 ?q] h2
  have b: "\<exists>st'. delete_server 1 [?q] = Inr st' \<and> get_server 1 st' = Inl NotFoundError"
    by blast
  from a have a': "\<exists>i st'. save_server ?p [] = Inr (i, st') \<and> get_server i st' =
      Inr \<lparr>profile_id = Some i, profile_name = ''web'', profile_host = ''example.org'', profile_port = 22,
       profile_username = ''root'', profile_auth = Password ''secret'', profile_proxy = None, profile_notes = ''''\<rparr>"
    by simp
  from h1 a' h2 b show ?thesis by (intro conjI)
qed

end
